theory Spec2Isabelle
  imports Complex_Main "HOL-Library.Sublist"
begin

section \<open>Values of the program\<close>

text \<open>
  The audit generator is one Python script, \<^verbatim>\<open>audit.py\<close>. Its functions are embedded
  here one by one, under their own names.

  Text is modelled over the 8-bit characters of HOL, read as the code points below 256,
  and Python's character classes (\<^verbatim>\<open>str.isspace\<close>, \<^verbatim>\<open>str.isdigit\<close>,
  \<^verbatim>\<open>str.lower\<close>, and the classes of the \<^verbatim>\<open>re\<close> module) are written out on
  that range. Numbers that the script computes with \<^verbatim>\<open>float\<close> are multiples of
  one half between 0 and 5, or quotients of small integers compared with 0.4 and 0.7;
  both are exact over the rationals, so they are modelled by \<^typ>\<open>rat\<close>.
\<close>

datatype exn_kind =
  EOFError | ValueError | TypeError | AttributeError | ZeroDivisionError
  | OverflowError | IndexError | SSLError | RequestError | DecodeError

text \<open>An exception is its class together with the text that \<^verbatim>\<open>str(e)\<close> gives.\<close>

datatype pyexn = Raise exn_kind string

fun str_exn :: "pyexn \<Rightarrow> string" where
  "str_exn (Raise k m) = m"

section \<open>Score bands: \<^verbatim>\<open>score_color\<close> and \<open>score_label\<close>\<close>

definition RED :: string where "RED = ''#E74C3C''"
definition ORANGE :: string where "ORANGE = ''#F39C12''"
definition GREEN :: string where "GREEN = ''#2ECC71''"

text \<open>
  \<^verbatim>\<open>pct = score / max_score\<close> is Python's true division; it raises
  \<^verbatim>\<open>ZeroDivisionError\<close> for a zero maximum.
\<close>

definition true_div :: "int \<Rightarrow> int \<Rightarrow> pyexn + rat" where
  "true_div a b =
     (if b = 0 then Inl (Raise ZeroDivisionError ''division by zero'')
      else Inr (of_int a / of_int b))"

definition score_color :: "int \<Rightarrow> int \<Rightarrow> pyexn + string" where
  "score_color score max_score =
     (case true_div score max_score of
        Inl e \<Rightarrow> Inl e
      | Inr pct \<Rightarrow>
          if pct < 4 / 10 then Inr RED
          else if pct < 7 / 10 then Inr ORANGE
          else Inr GREEN)"

definition score_label :: "int \<Rightarrow> int \<Rightarrow> pyexn + string" where
  "score_label score max_score =
     (case true_div score max_score of
        Inl e \<Rightarrow> Inl e
      | Inr pct \<Rightarrow>
          if pct < 4 / 10 then Inr ''Needs Work''
          else if pct < 7 / 10 then Inr ''Fair''
          else Inr ''Good'')"

section \<open>Page speed: \<^verbatim>\<open>pagespeed_to_score\<close>\<close>

definition pagespeed_to_score :: "int option \<Rightarrow> int option" where
  "pagespeed_to_score pct =
     (case pct of
        None \<Rightarrow> None
      | Some p \<Rightarrow>
          if p \<ge> 90 then Some 5
          else if p \<ge> 70 then Some 4
          else if p \<ge> 50 then Some 3
          else if p \<ge> 30 then Some 2
          else Some 1)"

section \<open>Website score: \<^verbatim>\<open>auto_website_score\<close>\<close>

text \<open>
  \<^verbatim>\<open>round(x)\<close> with one argument returns the nearest integer and, for a value
  halfway between two integers, the even one.
\<close>

definition py_round :: "rat \<Rightarrow> int" where
  "py_round x =
     (let f = \<lfloor>x\<rfloor>; d = x - of_int f
      in if d < 1 / 2 then f
         else if 1 / 2 < d then f + 1
         else if even f then f else f + 1)"

text \<open>
  The dictionary of SEO signals. \<^verbatim>\<open>not seo.get(k)\<close> holds when the key is absent
  (\<^verbatim>\<open>None\<close>) and when its value is \<^verbatim>\<open>False\<close>.
\<close>

type_synonym seo = "string \<rightharpoonup> bool"

definition not_get :: "seo \<Rightarrow> string \<Rightarrow> bool" where
  "not_get s k = (case s k of None \<Rightarrow> True | Some b \<Rightarrow> \<not> b)"

text \<open>The em dash of two messages lies outside the 8-bit range; it is kept as one
  character, under its Windows-1252 code.\<close>

definition em_dash :: string where
  "em_dash = [CHR 0x97]"

text \<open>
  One \<^verbatim>\<open>if not seo.get(key): score -= p; issues.append(msg)\<close> statement, on
  the pair of the two local variables.
\<close>

definition penalise :: "seo \<Rightarrow> string \<Rightarrow> rat \<Rightarrow> string \<Rightarrow> rat \<times> string list \<Rightarrow> rat \<times> string list" where
  "penalise s key p message st =
     (if not_get s key then (fst st - p, snd st @ [message]) else st)"

definition auto_website_score :: "bool \<Rightarrow> seo \<Rightarrow> int \<times> string list" where
  "auto_website_score site_exists s =
     (if \<not> site_exists then (1, [''No website found''])
      else
        let st = (5, []);
            st = penalise s ''city_in_title'' (1 / 2) ''City not in page title'' st;
            st = penalise s ''city_in_h1'' (1 / 2) ''City not in main headline'' st;
            st = penalise s ''city_in_content'' 1 ''City name not found in page content'' st;
            st = penalise s ''service_mentioned'' 1
                   ''Service type not clearly mentioned on page'' st;
            st = penalise s ''is_mobile_ready'' 1
                   (''No mobile viewport meta tag '' @ em_dash @ '' may not be mobile friendly'') st;
            st = penalise s ''has_phone'' (1 / 2) ''No phone number detected on page'' st
        in (max 1 (py_round (fst st)), snd st))"

text \<open>
  The dictionary that \<^verbatim>\<open>check_website_seo_basics\<close> returns for a parsed page:
  its six keys, each with a boolean.
\<close>

definition seo_dict :: "bool \<Rightarrow> bool \<Rightarrow> bool \<Rightarrow> bool \<Rightarrow> bool \<Rightarrow> bool \<Rightarrow> seo" where
  "seo_dict city_in_title city_in_h1 city_in_content service_mentioned is_mobile_ready has_phone =
     [''city_in_title'' \<mapsto> city_in_title,
      ''city_in_h1'' \<mapsto> city_in_h1,
      ''city_in_content'' \<mapsto> city_in_content,
      ''service_mentioned'' \<mapsto> service_mentioned,
      ''is_mobile_ready'' \<mapsto> is_mobile_ready,
      ''has_phone'' \<mapsto> has_phone]"

text \<open>
  The specification's reading of the score: five minus the fixed penalties of the
  missing signals.
\<close>

definition penalty_sum :: "bool \<Rightarrow> bool \<Rightarrow> bool \<Rightarrow> bool \<Rightarrow> bool \<Rightarrow> bool \<Rightarrow> rat" where
  "penalty_sum city_in_title city_in_h1 city_in_content service_mentioned is_mobile_ready has_phone =
     (if city_in_title then 0 else 1 / 2) + (if city_in_h1 then 0 else 1 / 2)
     + (if city_in_content then 0 else 1) + (if service_mentioned then 0 else 1)
     + (if is_mobile_ready then 0 else 1) + (if has_phone then 0 else 1 / 2)"

text \<open>Rounding to the nearest integer with halves rounded up, the usual school rule.\<close>

definition round_half_up :: "rat \<Rightarrow> int" where
  "round_half_up x = \<lfloor>x + 1 / 2\<rfloor>"

section \<open>Strings\<close>

text \<open>
  \<^verbatim>\<open>str.isspace\<close>, \<^verbatim>\<open>str.strip\<close>, \<^verbatim>\<open>str.lower\<close> and \<^verbatim>\<open>str.isdigit\<close>
  on the code points below 256. The superscripts 2, 3 and 1 (178, 179, 185) count as
  digits for \<^verbatim>\<open>isdigit\<close>, and \<^verbatim>\<open>int\<close> does not read them.
\<close>

definition isspace :: "char \<Rightarrow> bool" where
  "isspace c = (of_char c \<in> {9, 10, 11, 12, 13, 28, 29, 30, 31, 32, 133, 160 :: nat})"

definition strip :: "string \<Rightarrow> string" where
  "strip s = dropWhile isspace (rev (dropWhile isspace (rev s)))"

definition lower_char :: "char \<Rightarrow> char" where
  "lower_char c =
     (let n = of_char c :: nat
      in if (65 \<le> n \<and> n \<le> 90) \<or> (192 \<le> n \<and> n \<le> 222 \<and> n \<noteq> 215)
         then char_of (n + 32) else c)"

definition lower :: "string \<Rightarrow> string" where
  "lower s = map lower_char s"

definition is_decimal :: "char \<Rightarrow> bool" where
  "is_decimal c = (48 \<le> (of_char c :: nat) \<and> (of_char c :: nat) \<le> 57)"

definition isdigit_char :: "char \<Rightarrow> bool" where
  "isdigit_char c = (is_decimal c \<or> of_char c \<in> {178, 179, 185 :: nat})"

definition isdigit :: "string \<Rightarrow> bool" where
  "isdigit s = (s \<noteq> [] \<and> list_all isdigit_char s)"

definition digit_value :: "char \<Rightarrow> int" where
  "digit_value c = int (of_char c) - 48"

text \<open>
  \<^verbatim>\<open>int(s)\<close> in base 10: surrounding whitespace, one optional sign, then decimal
  digits, where a single underscore may stand between two digits. Anything else is a
  \<^verbatim>\<open>ValueError\<close>. (The interpreter's limit on the number of digits, 4300 by default
  in recent versions, is not modelled.)
\<close>

fun int_digits :: "int \<Rightarrow> string \<Rightarrow> int option" where
  "int_digits acc [] = Some acc"
| "int_digits acc (c # cs) =
     (if is_decimal c then int_digits (10 * acc + digit_value c) cs
      else if c = CHR ''_'' then
        (case cs of
           [] \<Rightarrow> None
         | d # ds \<Rightarrow> if is_decimal d then int_digits (10 * acc + digit_value d) ds else None)
      else None)"

definition int_unsigned :: "string \<Rightarrow> int option" where
  "int_unsigned s =
     (case s of
        [] \<Rightarrow> None
      | d # ds \<Rightarrow> if is_decimal d then int_digits (digit_value d) ds else None)"

definition py_int :: "string \<Rightarrow> pyexn + int" where
  "py_int s =
     (let t = strip s;
          r = (case t of
                 [] \<Rightarrow> None
               | c # cs \<Rightarrow>
                   if c = CHR ''-'' then map_option uminus (int_unsigned cs)
                   else if c = CHR ''+'' then int_unsigned cs
                   else int_unsigned t)
      in case r of
           None \<Rightarrow> Inl (Raise ValueError ''invalid literal for int() with base 10'')
         | Some n \<Rightarrow> Inr n)"

text \<open>\<^verbatim>\<open>str(n)\<close> of an integer, as an f-string writes it.\<close>

fun str_nat :: "nat \<Rightarrow> string" where
  "str_nat n =
     (if n < 10 then [char_of (48 + n)]
      else str_nat (n div 10) @ [char_of (48 + n mod 10)])"

declare str_nat.simps [simp del]

definition str_int :: "int \<Rightarrow> string" where
  "str_int i = (if i < 0 then CHR ''-'' # str_nat (nat (- i)) else str_nat (nat i))"

text \<open>
  \<^verbatim>\<open>s.replace(old, new)\<close> for a pattern that is not empty: every occurrence, from
  the left, without overlap. The counter is the number of characters of a replaced
  occurrence still to be skipped.
\<close>

fun replace_from :: "string \<Rightarrow> string \<Rightarrow> nat \<Rightarrow> string \<Rightarrow> string" where
  "replace_from old new k [] = []"
| "replace_from old new (Suc k) (c # cs) = replace_from old new k cs"
| "replace_from old new 0 (c # cs) =
     (if prefix old (c # cs) then new @ replace_from old new (length old - 1) cs
      else c # replace_from old new 0 cs)"

definition replace :: "string \<Rightarrow> string \<Rightarrow> string \<Rightarrow> string" where
  "replace s old new = replace_from old new 0 s"

section \<open>The terminal: \<^verbatim>\<open>prompt\<close>\<close>

text \<open>
  Standard input is the list of the lines still to be read. \<^verbatim>\<open>input()\<close> takes the
  first one and raises \<^verbatim>\<open>EOFError\<close> when none is left. What the program prints is
  not modelled, so the label of a prompt is dropped.
\<close>

definition input :: "string list \<Rightarrow> pyexn + (string \<times> string list)" where
  "input stdin =
     (case stdin of
        [] \<Rightarrow> Inl (Raise EOFError ''EOF when reading a line'')
      | l # ls \<Rightarrow> Inr (l, ls))"

text \<open>
  The \<^verbatim>\<open>while True\<close> loop of \<^verbatim>\<open>prompt\<close> for a menu of \<open>n\<close> options. A line
  that is no integer (\<^verbatim>\<open>ValueError\<close>, caught) or is out of range starts the next
  round; the end of input is not caught.
\<close>

fun prompt_choice :: "nat \<Rightarrow> string list \<Rightarrow> pyexn + (int \<times> string list)" where
  "prompt_choice n [] = Inl (Raise EOFError ''EOF when reading a line'')"
| "prompt_choice n (l # ls) =
     (case py_int (strip l) of
        Inl e \<Rightarrow> prompt_choice n ls
      | Inr val \<Rightarrow> if 1 \<le> val \<and> val \<le> int n then Inr (val, ls) else prompt_choice n ls)"

definition prompt_text :: "string option \<Rightarrow> string list \<Rightarrow> pyexn + (string option \<times> string list)" where
  "prompt_text dflt stdin =
     (case input stdin of
        Inl e \<Rightarrow> Inl e
      | Inr (l, rest) \<Rightarrow>
          let val = strip l in Inr (if val \<noteq> [] then Some val else dflt, rest))"

text \<open>What \<^verbatim>\<open>prompt\<close> returns: the number of a menu entry, or text (or \<^verbatim>\<open>None\<close>).\<close>

datatype answer = Number int | Text "string option"

text \<open>\<^verbatim>\<open>if options:\<close> holds for a list that is given and not empty.\<close>

definition prompt :: "string list option \<Rightarrow> string option \<Rightarrow> string list \<Rightarrow> pyexn + (answer \<times> string list)" where
  "prompt options dflt stdin =
     (case options of
        Some (opt # opts) \<Rightarrow>
          (case prompt_choice (length (opt # opts)) stdin of
             Inl e \<Rightarrow> Inl e
           | Inr (val, rest) \<Rightarrow> Inr (Number val, rest))
      | _ \<Rightarrow>
          (case prompt_text dflt stdin of
             Inl e \<Rightarrow> Inl e
           | Inr (val, rest) \<Rightarrow> Inr (Text val, rest)))"

section \<open>Reachability: \<^verbatim>\<open>clean_url\<close> and \<open>check_website\<close>\<close>

definition clean_url :: "string option \<Rightarrow> string option" where
  "clean_url url =
     (case url of
        None \<Rightarrow> None
      | Some u \<Rightarrow>
          if u = [] then None
          else let u = strip u
               in if \<not> prefix ''http'' u then Some (''https://'' @ u) else Some u)"

text \<open>
  What \<^verbatim>\<open>requests.get\<close> gives back is a response, or an exception. The fields
  \<^verbatim>\<open>url\<close> and \<^verbatim>\<open>text\<close> of a response are \<open>final_url\<close> and \<open>body_text\<close>.
\<close>

record response =
  status_code :: int
  final_url :: string
  body_text :: string

datatype json =
  JNull | JBool bool | JInt int | JFloat rat | JNaN | JInfinity bool
  | JStr string | JList "json list" | JDict "(string \<times> json) list"

text \<open>
  The collaborators of the script, which it reaches through libraries: the two requests
  of \<^verbatim>\<open>check_website\<close>; the page-speed request, by its parameters, with the decoding
  of its JSON body; the conversion \<^verbatim>\<open>int(score * 100)\<close>, which is computed in
  floating point; the search request, by its query, with the text that
  \<^verbatim>\<open>BeautifulSoup\<close> renders from the page; the six tests that
  \<^verbatim>\<open>check_website_seo_basics\<close> makes on a parsed page, by the markup, the city and
  the service word; the API key of the process environment; and the date of the day.
\<close>

record world =
  site_get :: "string \<Rightarrow> pyexn + response"
  site_get_http :: "string \<Rightarrow> pyexn + response"
  pagespeed_get :: "(string \<times> string) list \<Rightarrow> pyexn + json"
  scaled_int :: "json \<Rightarrow> pyexn + int"
  search_text :: "string \<Rightarrow> pyexn + string"
  page_signals :: "string \<Rightarrow> string \<Rightarrow> string \<Rightarrow> bool \<times> bool \<times> bool \<times> bool \<times> bool \<times> bool"
  PAGESPEED_API_KEY :: string
  today :: string

definition check_website :: "world \<Rightarrow> string option \<Rightarrow> bool \<times> string option \<times> string option" where
  "check_website w url =
     (case url of
        None \<Rightarrow> (False, None, Some ''No website provided'')
      | Some u \<Rightarrow>
          if u = [] \<or> lower u \<in> {''none'', ''n'', ''''}
          then (False, None, Some ''No website provided'')
          else
            (case clean_url (Some u) of
               None \<Rightarrow> (False, None, None)
             | Some clean \<Rightarrow>
                 (case site_get w clean of
                    Inr resp \<Rightarrow>
                      if status_code resp < 400 then (True, Some clean, Some (body_text resp))
                      else (False, Some clean, None)
                  | Inl (Raise SSLError m) \<Rightarrow>
                      (let clean_http = replace clean ''https://'' ''http://''
                       in case site_get_http w clean_http of
                            Inr resp \<Rightarrow> (True, Some clean_http, Some (body_text resp))
                          | Inl e \<Rightarrow> (False, Some clean, None))
                  | Inl e \<Rightarrow> (False, Some clean, None))))"

section \<open>Page speed: \<^verbatim>\<open>get_pagespeed_score\<close>\<close>

fun type_name :: "json \<Rightarrow> string" where
  "type_name JNull = ''NoneType''"
| "type_name (JBool b) = ''bool''"
| "type_name (JInt i) = ''int''"
| "type_name (JFloat r) = ''float''"
| "type_name JNaN = ''float''"
| "type_name (JInfinity b) = ''float''"
| "type_name (JStr s) = ''str''"
| "type_name (JList xs) = ''list''"
| "type_name (JDict kvs) = ''dict''"

text \<open>
  \<^verbatim>\<open>d.get(key, default)\<close>: the value of the key, the default when the key is absent,
  and \<^verbatim>\<open>AttributeError\<close> when \<open>d\<close> is no dictionary.
\<close>

fun dict_get :: "json \<Rightarrow> string \<Rightarrow> json \<Rightarrow> pyexn + json" where
  "dict_get (JDict kvs) key dflt =
     (case map_of kvs key of None \<Rightarrow> Inr dflt | Some v \<Rightarrow> Inr v)"
| "dict_get d key dflt =
     Inl (Raise AttributeError
           ([CHR 0x27] @ type_name d @ [CHR 0x27] @ '' object has no attribute ''
            @ [CHR 0x27] @ ''get'' @ [CHR 0x27]))"

text \<open>Sequencing of steps that may raise.\<close>

definition bind :: "pyexn + 'a \<Rightarrow> ('a \<Rightarrow> pyexn + 'b) \<Rightarrow> pyexn + 'b" where
  "bind m f = (case m of Inl e \<Rightarrow> Inl e | Inr x \<Rightarrow> f x)"

text \<open>The chain of lookups that reads the score out of the response.\<close>

definition score_field :: "json \<Rightarrow> pyexn + json" where
  "score_field data =
     bind (dict_get data ''lighthouseResult'' (JDict [])) (\<lambda>l.
     bind (dict_get l ''categories'' (JDict [])) (\<lambda>c.
     bind (dict_get c ''performance'' (JDict [])) (\<lambda>p.
     dict_get p ''score'' JNull)))"

definition pagespeed_params :: "world \<Rightarrow> string \<Rightarrow> (string \<times> string) list" where
  "pagespeed_params w u =
     [(''url'', u), (''strategy'', ''mobile''), (''category'', ''performance'')]
     @ (if PAGESPEED_API_KEY w \<noteq> [] then [(''key'', PAGESPEED_API_KEY w)] else [])"

text \<open>The body of the \<^verbatim>\<open>try\<close> block; every exception raised in it is a left value.\<close>

definition pagespeed_try :: "world \<Rightarrow> string \<Rightarrow> pyexn + (int option \<times> json)" where
  "pagespeed_try w u =
     bind (pagespeed_get w (pagespeed_params w u)) (\<lambda>data.
     bind (score_field data) (\<lambda>score.
       if score \<noteq> JNull then
         bind (scaled_int w score) (\<lambda>pct. Inr (Some pct, JNull))
       else
         bind (dict_get data ''error'' (JDict [])) (\<lambda>err.
         bind (dict_get err ''message'' (JStr ''Unknown error'')) (\<lambda>error.
         Inr (None, error)))))"

text \<open>
  The handler \<^verbatim>\<open>except Exception as e\<close> turns each of them into a result. The second
  component is \<^verbatim>\<open>None\<close> (\<open>JNull\<close>) on success, else the error text.
\<close>

definition get_pagespeed_score :: "world \<Rightarrow> string option \<Rightarrow> int option \<times> json" where
  "get_pagespeed_score w url =
     (case url of
        None \<Rightarrow> (None, JStr ''No website'')
      | Some u \<Rightarrow>
          if u = [] then (None, JStr ''No website'')
          else
            (case pagespeed_try w u of
               Inr r \<Rightarrow> r
             | Inl e \<Rightarrow> (None, JStr (str_exn e))))"

section \<open>Regular expressions of \<^verbatim>\<open>re.search\<close>\<close>

text \<open>
  The patterns of the script use character classes, literals, greedy repetition of a
  class, options, alternatives, one capturing group and the word boundary \<^verbatim>\<open>\b\<close>.
  \<^verbatim>\<open>\w\<close>, on which the boundary rests, is a letter, a digit, a numeric character or
  the underscore.
\<close>

datatype regex =
  Eps
  | Chr "char \<Rightarrow> bool"
  | Many "char \<Rightarrow> bool" nat "nat option"
  | Boundary
  | Seq regex regex
  | Alt regex regex
  | Opt regex
  | Group regex

definition is_word :: "char \<Rightarrow> bool" where
  "is_word c =
     (let n = of_char c :: nat
      in (48 \<le> n \<and> n \<le> 57) \<or> (65 \<le> n \<and> n \<le> 90) \<or> n = 95 \<or> (97 \<le> n \<and> n \<le> 122)
         \<or> n \<in> {170, 178, 179, 181, 185, 186, 188, 189, 190}
         \<or> (192 \<le> n \<and> n \<le> 214) \<or> (216 \<le> n \<and> n \<le> 246) \<or> 248 \<le> n)"

definition word_before :: "char option \<Rightarrow> bool" where
  "word_before p = (case p of None \<Rightarrow> False | Some c \<Rightarrow> is_word c)"

definition word_after :: "string \<Rightarrow> bool" where
  "word_after s = (case s of [] \<Rightarrow> False | c # cs \<Rightarrow> is_word c)"

text \<open>A position in the text: the character before it, if any, and the text from it on.\<close>

fun advance :: "nat \<Rightarrow> char option \<Rightarrow> string \<Rightarrow> char option \<times> string" where
  "advance 0 p s = (p, s)"
| "advance (Suc k) p [] = (p, [])"
| "advance (Suc k) p (c # cs) = advance k (Some c) cs"

text \<open>
  All the ways in which a pattern matches at a position, in the order in which the
  backtracking matcher tries them: the position after the match and the texts of the
  groups. A greedy repetition tries the longest run first, an option tries its body
  first, an alternative its left branch.
\<close>

fun matches :: "regex \<Rightarrow> char option \<Rightarrow> string \<Rightarrow> (char option \<times> string \<times> string list) list" where
  "matches Eps p s = [(p, s, [])]"
| "matches (Chr P) p s =
     (case s of [] \<Rightarrow> [] | c # cs \<Rightarrow> if P c then [(Some c, cs, [])] else [])"
| "matches (Many P lo hi) p s =
     (let run = length (takeWhile P s);
          n = (case hi of None \<Rightarrow> run | Some h \<Rightarrow> min h run)
      in map (\<lambda>k. case advance k p s of (p', s') \<Rightarrow> (p', s', [])) (rev [lo..<Suc n]))"
| "matches Boundary p s = (if word_before p \<noteq> word_after s then [(p, s, [])] else [])"
| "matches (Seq a b) p s =
     concat (map (\<lambda>(p1, s1, g1). map (\<lambda>(p2, s2, g2). (p2, s2, g1 @ g2)) (matches b p1 s1))
               (matches a p s))"
| "matches (Alt a b) p s = matches a p s @ matches b p s"
| "matches (Opt a) p s = matches a p s @ [(p, s, [])]"
| "matches (Group a) p s =
     map (\<lambda>(p', s', g). (p', s', take (length s - length s') s # g)) (matches a p s)"

text \<open>
  \<^verbatim>\<open>re.search\<close> scans the start positions from the left and takes the first way of
  matching at the first position that has one; the result is the list of its groups.
\<close>

fun search_from :: "regex \<Rightarrow> char option \<Rightarrow> string \<Rightarrow> string list option" where
  "search_from r p [] = (case matches r p [] of [] \<Rightarrow> None | m # ms \<Rightarrow> Some (snd (snd m)))"
| "search_from r p (c # cs) =
     (case matches r p (c # cs) of
        [] \<Rightarrow> search_from r (Some c) cs
      | m # ms \<Rightarrow> Some (snd (snd m)))"

definition search :: "regex \<Rightarrow> string \<Rightarrow> string list option" where
  "search r s = search_from r None s"

text \<open>\<^verbatim>\<open>m.group(1) if m else None\<close>\<close>

definition group1 :: "string list option \<Rightarrow> string option" where
  "group1 m = (case m of Some (g # gs) \<Rightarrow> Some g | _ \<Rightarrow> None)"

definition between :: "char \<Rightarrow> char \<Rightarrow> char \<Rightarrow> bool" where
  "between lo hi c = ((of_char lo :: nat) \<le> of_char c \<and> (of_char c :: nat) \<le> of_char hi)"

text \<open>A literal character and a literal word under \<^verbatim>\<open>re.IGNORECASE\<close>.\<close>

definition ichr :: "char \<Rightarrow> regex" where
  "ichr x = Chr (\<lambda>c. lower_char c = lower_char x)"

fun iword :: "string \<Rightarrow> regex" where
  "iword [] = Eps"
| "iword [x] = ichr x"
| "iword (x # xs) = Seq (ichr x) (iword xs)"

text \<open>\<^verbatim>\<open>\b([1-5]\.[0-9])\b\<close>\<close>

definition rating_re :: regex where
  "rating_re =
     Seq Boundary
       (Seq (Group (Seq (Chr (between CHR ''1'' CHR ''5''))
                     (Seq (Chr (\<lambda>c. c = CHR ''.'')) (Chr (between CHR ''0'' CHR ''9'')))))
          Boundary)"

text \<open>\<^verbatim>\<open>[\(\s](\d{1,5})\s*(?:Google\s+)?reviews?\b\<close>, ignoring case\<close>

definition review_re :: regex where
  "review_re =
     Seq (Chr (\<lambda>c. c = CHR ''('' \<or> isspace c))
       (Seq (Group (Many is_decimal 1 (Some 5)))
          (Seq (Many isspace 0 None)
             (Seq (Opt (Seq (iword ''Google'') (Many isspace 1 None)))
                (Seq (iword ''review'') (Seq (Opt (ichr CHR ''s'')) Boundary)))))"

text \<open>\<^verbatim>\<open>\b(open|closed|hours|AM|PM)\b\<close>, ignoring case\<close>

definition hours_re :: regex where
  "hours_re =
     Seq Boundary
       (Seq (Group (Alt (iword ''open'') (Alt (iword ''closed'') (Alt (iword ''hours'')
                     (Alt (iword ''AM'') (iword ''PM''))))))
          Boundary)"

section \<open>What a pattern matches\<close>

text \<open>
  The meaning of a pattern, apart from any order of search: \<open>accepts r p s k\<close> holds
  when \<open>r\<close> matches the first \<open>k\<close> characters of \<open>s\<close>, where \<open>p\<close> is the character
  before \<open>s\<close>. It is the measure for \<open>matches\<close> and \<open>search\<close> above.
\<close>

fun accepts :: "regex \<Rightarrow> char option \<Rightarrow> string \<Rightarrow> nat \<Rightarrow> bool" where
  "accepts Eps p s k = (k = 0)"
| "accepts (Chr P) p s k = (k = 1 \<and> (case s of [] \<Rightarrow> False | c # cs \<Rightarrow> P c))"
| "accepts (Many P lo hi) p s k =
     (lo \<le> k \<and> (case hi of None \<Rightarrow> True | Some h \<Rightarrow> k \<le> h) \<and> k \<le> length s
      \<and> (\<forall>c\<in>set (take k s). P c))"
| "accepts Boundary p s k = (k = 0 \<and> word_before p \<noteq> word_after s)"
| "accepts (Seq a b) p s k =
     (\<exists>j\<in>set [0..<Suc k]. accepts a p s j \<and> accepts b (fst (advance j p s)) (drop j s) (k - j))"
| "accepts (Alt a b) p s k = (accepts a p s k \<or> accepts b p s k)"
| "accepts (Opt a) p s k = (accepts a p s k \<or> k = 0)"
| "accepts (Group a) p s k = accepts a p s k"

text \<open>The pattern has no capturing group.\<close>

fun no_group :: "regex \<Rightarrow> bool" where
  "no_group (Seq a b) = (no_group a \<and> no_group b)"
| "no_group (Alt a b) = (no_group a \<and> no_group b)"
| "no_group (Opt a) = no_group a"
| "no_group (Group a) = False"
| "no_group r = True"

text \<open>The pattern matches some substring of \<open>t\<close> that starts at index \<open>i\<close>.\<close>

definition match_at :: "regex \<Rightarrow> string \<Rightarrow> nat \<Rightarrow> bool" where
  "match_at r t i =
     (\<exists>k\<in>set [0..<Suc (length t - i)]. accepts r (fst (advance i None t)) (drop i t) k)"

text \<open>Index \<open>i\<close> is the first at which the pattern matches in \<open>t\<close>.\<close>

definition first_match :: "regex \<Rightarrow> string \<Rightarrow> nat \<Rightarrow> bool" where
  "first_match r t i = (i \<le> length t \<and> match_at r t i \<and> (\<forall>j\<in>set [0..<i]. \<not> match_at r t j))"

section \<open>Listing data: \<^verbatim>\<open>scrape_gbp_basics\<close>\<close>

text \<open>An optional text in an f-string: \<^verbatim>\<open>None\<close> is written as such.\<close>

definition fmt :: "string option \<Rightarrow> string" where
  "fmt v = (case v of None \<Rightarrow> ''None'' | Some s \<Rightarrow> s)"

text \<open>\<^verbatim>\<open>x or "?"\<close>\<close>

definition or_unknown :: "string option \<Rightarrow> string" where
  "or_unknown v = (case v of None \<Rightarrow> ''?'' | Some s \<Rightarrow> if s = [] then ''?'' else s)"

record gbp =
  gbp_rating :: string
  gbp_review_count :: string
  gbp_has_hours :: bool

definition scrape_gbp_basics :: "world \<Rightarrow> string option \<Rightarrow> string option \<Rightarrow> gbp" where
  "scrape_gbp_basics w business_name city =
     (let query = fmt business_name @ '' '' @ fmt city
      in case search_text w query of
           Inl e \<Rightarrow> \<lparr> gbp_rating = ''?'', gbp_review_count = ''?'', gbp_has_hours = False \<rparr>
         | Inr page \<Rightarrow>
             let rating = group1 (search rating_re (take 3000 page));
                 review_count = group1 (search review_re (take 3000 page));
                 has_hours = (search hours_re (take 3000 page) \<noteq> None)
             in \<lparr> gbp_rating = or_unknown rating, gbp_review_count = or_unknown review_count,
                  gbp_has_hours = has_hours \<rparr>)"

section \<open>Page signals: \<^verbatim>\<open>check_website_seo_basics\<close>\<close>

text \<open>
  The city up to its first comma and the first word of the business type are computed as
  in the script; a missing city or type (\<^verbatim>\<open>None\<close>, a prompt left empty) makes
  \<^verbatim>\<open>.lower()\<close> raise. The six tests on the parsed page belong to the world.
\<close>

definition truthy :: "string option \<Rightarrow> bool" where
  "truthy v = (case v of None \<Rightarrow> False | Some s \<Rightarrow> s \<noteq> [])"

definition none_has_no_lower :: pyexn where
  "none_has_no_lower =
     Raise AttributeError
       ([CHR 0x27] @ ''NoneType'' @ [CHR 0x27] @ '' object has no attribute ''
        @ [CHR 0x27] @ ''lower'' @ [CHR 0x27])"

definition check_website_seo_basics :: "world \<Rightarrow> string option \<Rightarrow> string option \<Rightarrow> string option \<Rightarrow> pyexn + seo" where
  "check_website_seo_basics w html city business_type =
     (case html of
        None \<Rightarrow> Inr Map.empty
      | Some h \<Rightarrow>
          if h = [] then Inr Map.empty
          else
            (case city of
               None \<Rightarrow> Inl none_has_no_lower
             | Some c \<Rightarrow>
                 (case business_type of
                    None \<Rightarrow> Inl none_has_no_lower
                  | Some t \<Rightarrow>
                      let city_lower = strip (takeWhile (\<lambda>x. x \<noteq> CHR '','') (lower c));
                          words = dropWhile isspace (lower t)
                      in if words = [] then Inl (Raise IndexError ''list index out of range'')
                         else
                           let type_lower = takeWhile (\<lambda>x. \<not> isspace x) words
                           in case page_signals w h city_lower type_lower of
                                (city_in_title, city_in_h1, city_in_content, service_mentioned,
                                 is_mobile_ready, has_phone) \<Rightarrow>
                                  Inr (seo_dict city_in_title city_in_h1 city_in_content
                                         service_mentioned is_mobile_ready has_phone))))"

section \<open>The interview: \<^verbatim>\<open>collect_data\<close>\<close>

text \<open>
  \<^verbatim>\<open>collect_data\<close> is one function in six parts, each under a comment of its own in
  the script. Each part is a function here, from the input still to be read to its
  variables and the rest of the input.
\<close>

subsection \<open>Business info\<close>

record info =
  info_name :: "string option"
  info_type :: "string option"
  info_city :: "string option"
  info_has_website :: bool
  info_website_url :: string

definition business_info :: "string list \<Rightarrow> pyexn + (info \<times> string list)" where
  "business_info stdin =
     bind (prompt_text None stdin) (\<lambda>(name, stdin).
     bind (prompt_text None stdin) (\<lambda>(type, stdin).
     bind (prompt_text None stdin) (\<lambda>(city, stdin).
     bind (prompt_text (Some '''') stdin) (\<lambda>(website_input, stdin).
       let has = (case website_input of
                    None \<Rightarrow> False
                  | Some s \<Rightarrow> s \<noteq> [] \<and> lower s \<notin> {''none'', ''n'', ''''})
       in Inr (\<lparr> info_name = name, info_type = type, info_city = city,
                  info_has_website = has,
                  info_website_url = (if has then fmt website_input else ''None'') \<rparr>,
               stdin)))))"

subsection \<open>Auto-fetch phase\<close>

record fetched =
  site_exists :: bool
  site_url :: "string option"
  html :: "string option"
  auto_site_score :: int
  pagespeed_pct :: "int option"
  auto_speed_score :: "int option"
  auto_findings :: "string list"
  fetched_rating :: "string option"
  fetched_count :: "string option"

text \<open>The website check with its manual fallback.\<close>

definition confirm_site :: "world \<Rightarrow> info \<Rightarrow> string list \<Rightarrow> pyexn + ((bool \<times> string option \<times> string option) \<times> string list)" where
  "confirm_site w i stdin =
     (case check_website w (if info_has_website i then Some (info_website_url i) else None) of
        (exists, u, h) \<Rightarrow>
          if info_has_website i \<and> \<not> exists then
            bind (prompt_text (Some ''n'') stdin) (\<lambda>(answer, stdin).
              case answer of
                None \<Rightarrow> Inl none_has_no_lower
              | Some a \<Rightarrow>
                  if lower a = ''y''
                  then Inr ((True, clean_url (Some (info_website_url i)), None), stdin)
                  else Inr ((exists, u, h), stdin))
          else Inr ((exists, u, h), stdin))"

text \<open>The findings that the page-speed percentage adds.\<close>

definition speed_findings :: "int option \<Rightarrow> string list" where
  "speed_findings pct =
     (case pct of
        None \<Rightarrow> []
      | Some p \<Rightarrow>
          if p < 50 then
            [''Mobile PageSpeed score is '' @ str_int p @ ''/100 '' @ em_dash
              @ '' very slow, hurts rankings'']
          else if p < 70 then
            [''Mobile PageSpeed score is '' @ str_int p @ ''/100 '' @ em_dash
              @ '' needs improvement'']
          else [])"

text \<open>Rating and review count: scraped, or asked for when either is unknown.\<close>

definition gbp_basics :: "world \<Rightarrow> info \<Rightarrow> string list \<Rightarrow> pyexn + ((string option \<times> string option) \<times> string list)" where
  "gbp_basics w i stdin =
     (let g = scrape_gbp_basics w (info_name i) (info_city i)
      in if gbp_rating g = ''?'' \<or> gbp_review_count g = ''?'' then
           bind (prompt_text (Some ''none'') stdin) (\<lambda>(rating, stdin).
           bind (prompt_text (Some ''0'') stdin) (\<lambda>(count, stdin).
           Inr ((rating, count), stdin)))
         else Inr ((Some (gbp_rating g), Some (gbp_review_count g)), stdin))"

definition auto_fetch :: "world \<Rightarrow> info \<Rightarrow> string list \<Rightarrow> pyexn + (fetched \<times> string list)" where
  "auto_fetch w i stdin =
     bind (confirm_site w i stdin) (\<lambda>((exists, u, h), stdin).
     bind (if truthy h then check_website_seo_basics w h (info_city i) (info_type i)
           else Inr Map.empty) (\<lambda>seo.
       case auto_website_score exists seo of
         (score, site_issues) \<Rightarrow>
           case (if exists then get_pagespeed_score w u else (None, JStr ''No website'')) of
             (pct, ps_error) \<Rightarrow>
               bind (gbp_basics w i stdin) (\<lambda>((rating, count), stdin).
                 Inr (\<lparr> site_exists = exists, site_url = u, html = h,
                         auto_site_score = score, pagespeed_pct = pct,
                         auto_speed_score = pagespeed_to_score pct,
                         auto_findings = site_issues @ speed_findings pct,
                         fetched_rating = rating, fetched_count = count \<rparr>,
                      stdin))))"

subsection \<open>Competitor\<close>

record competitor =
  competitor_name :: "string option"
  competitor_reviews :: "string option"
  competitor_rating :: "string option"
  competitor_has_site :: bool

definition competitor_part :: "string list \<Rightarrow> pyexn + (competitor \<times> string list)" where
  "competitor_part stdin =
     bind (prompt_text (Some ''N/A'') stdin) (\<lambda>(name, stdin).
     bind (prompt_text (Some ''N/A'') stdin) (\<lambda>(reviews, stdin).
     bind (prompt_text (Some ''N/A'') stdin) (\<lambda>(rating, stdin).
     bind (prompt_text (Some ''y'') stdin) (\<lambda>(site, stdin).
       case site of
         None \<Rightarrow> Inl none_has_no_lower
       | Some s \<Rightarrow>
           Inr (\<lparr> competitor_name = name, competitor_reviews = reviews,
                   competitor_rating = rating, competitor_has_site = (lower s = ''y'') \<rparr>,
                stdin)))))"

subsection \<open>Manual scores\<close>

definition score_opts :: "string list" where
  "score_opts = [''1 - Very Poor'', ''2 - Poor'', ''3 - Fair'', ''4 - Good'', ''5 - Excellent'']"

text \<open>
  \<^verbatim>\<open>int(override) if override.isdigit() else auto\<close> after the prompt for an override;
  \<^verbatim>\<open>int\<close> raises on a superscript digit.
\<close>

definition override_score :: "int \<Rightarrow> string list \<Rightarrow> pyexn + (int \<times> string list)" where
  "override_score auto stdin =
     bind (prompt_text (Some '''') stdin) (\<lambda>(override, stdin).
       case override of
         None \<Rightarrow> Inl (Raise AttributeError
                      ([CHR 0x27] @ ''NoneType'' @ [CHR 0x27] @ '' object has no attribute ''
                       @ [CHR 0x27] @ ''isdigit'' @ [CHR 0x27]))
       | Some s \<Rightarrow>
           if isdigit s then bind (py_int s) (\<lambda>n. Inr (n, stdin)) else Inr (auto, stdin))"

record scores =
  scored_website :: int
  scored_speed :: int
  scored_gbp :: int
  scored_visibility :: int
  scored_geo :: int

definition scoring :: "fetched \<Rightarrow> string list \<Rightarrow> pyexn + (scores \<times> string list)" where
  "scoring f stdin =
     bind (if auto_site_score f \<noteq> 0 \<and> site_exists f
           then override_score (auto_site_score f) stdin
           else if \<not> site_exists f then Inr (1, stdin)
           else prompt_choice (length score_opts) stdin) (\<lambda>(website, stdin).
     bind (case auto_speed_score f of
             Some s \<Rightarrow>
               if s \<noteq> 0 then override_score s stdin
               else if \<not> site_exists f then Inr (1, stdin)
               else prompt_choice (length score_opts) stdin
           | None \<Rightarrow>
               if \<not> site_exists f then Inr (1, stdin)
               else prompt_choice (length score_opts) stdin) (\<lambda>(speed, stdin).
     bind (prompt_choice (length score_opts) stdin) (\<lambda>(g, stdin).
     bind (prompt_choice (length score_opts) stdin) (\<lambda>(visibility, stdin).
     bind (prompt_choice (length score_opts) stdin) (\<lambda>(geo, stdin).
       Inr (\<lparr> scored_website = website, scored_speed = speed, scored_gbp = g,
               scored_visibility = visibility, scored_geo = geo \<rparr>,
            stdin))))))"

subsection \<open>Findings\<close>

text \<open>
  The loop that reads the operator's own findings. It ends on an empty line when no
  finding has been entered, or when the last one entered is empty; an empty line is
  never entered.
\<close>

fun manual_findings :: "string list \<Rightarrow> string list \<Rightarrow> pyexn + (string list \<times> string list)" where
  "manual_findings found [] = Inl (Raise EOFError ''EOF when reading a line'')"
| "manual_findings found (l # ls) =
     (let line = strip l
      in if line = [] \<and> (found = [] \<or> last found = []) then Inr (found, ls)
         else if line \<noteq> [] then manual_findings (found @ [line]) ls
         else manual_findings found ls)"

subsection \<open>Recommendations\<close>

text \<open>One round of \<^verbatim>\<open>for i in range(1, 4)\<close>: a recommendation is kept when not empty.\<close>

definition recommendation :: "string list \<Rightarrow> string list \<Rightarrow> pyexn + (string list \<times> string list)" where
  "recommendation recs stdin =
     bind (prompt_text None stdin) (\<lambda>(r, stdin).
       Inr (if truthy r then recs @ [fmt r] else recs, stdin))"

definition recommendations_part :: "string list \<Rightarrow> pyexn + ((string list \<times> string option) \<times> string list)" where
  "recommendations_part stdin =
     bind (recommendation [] stdin) (\<lambda>(recs, stdin).
     bind (recommendation recs stdin) (\<lambda>(recs, stdin).
     bind (recommendation recs stdin) (\<lambda>(recs, stdin).
     bind (prompt_text (Some ''Queso Ventures'') stdin) (\<lambda>(auditor, stdin).
       Inr ((recs, auditor), stdin)))))"

subsection \<open>The record\<close>

record data =
  business_name :: "string option"
  business_type :: "string option"
  business_city :: "string option"
  has_website :: bool
  website_url :: string
  review_rating :: "string option"
  review_count :: "string option"
  comp_name :: "string option"
  comp_reviews :: "string option"
  comp_rating :: "string option"
  comp_has_site :: bool
  website_score :: int
  speed_score :: int
  gbp_score :: int
  visibility_score :: int
  geo_score :: int
  findings :: "string list"
  recommendations :: "string list"
  auditor_name :: "string option"
  audit_date :: string

definition collect_data :: "world \<Rightarrow> string list \<Rightarrow> pyexn + data" where
  "collect_data w stdin =
     bind (business_info stdin) (\<lambda>(i, stdin).
     bind (auto_fetch w i stdin) (\<lambda>(f, stdin).
     bind (competitor_part stdin) (\<lambda>(c, stdin).
     bind (scoring f stdin) (\<lambda>(s, stdin).
     bind (manual_findings [] stdin) (\<lambda>(manual, stdin).
     bind (recommendations_part stdin) (\<lambda>((recs, auditor), stdin).
       Inr \<lparr> business_name = info_name i, business_type = info_type i,
             business_city = info_city i, has_website = site_exists f,
             website_url = info_website_url i,
             review_rating = fetched_rating f, review_count = fetched_count f,
             comp_name = competitor_name c, comp_reviews = competitor_reviews c,
             comp_rating = competitor_rating c, comp_has_site = competitor_has_site c,
             website_score = scored_website s, speed_score = scored_speed s,
             gbp_score = scored_gbp s, visibility_score = scored_visibility s,
             geo_score = scored_geo s,
             findings = auto_findings f @ manual, recommendations = recs,
             auditor_name = auditor, audit_date = today w \<rparr>))))))"

section \<open>Worlds of the examples\<close>

text \<open>A world in which no request gets through, and integer scores scale exactly.\<close>

definition world_quiet :: world where
  "world_quiet =
     \<lparr> site_get = (\<lambda>u. Inl (Raise RequestError ''connection refused'')),
       site_get_http = (\<lambda>u. Inl (Raise RequestError ''connection refused'')),
       pagespeed_get = (\<lambda>ps. Inl (Raise RequestError ''connection refused'')),
       scaled_int =
         (\<lambda>j. case j of JInt i \<Rightarrow> Inr (i * 100) | _ \<Rightarrow> Inl (Raise TypeError ''unsupported'')),
       search_text = (\<lambda>q. Inl (Raise RequestError ''connection refused'')),
       page_signals = (\<lambda>html city service. (False, False, False, False, False, False)),
       PAGESPEED_API_KEY = '''',
       today = ''November 04, 2026'' \<rparr>"

text \<open>The TLS handshake fails, and the plain-text server answers every page with 404.\<close>

definition world_tls_404 :: world where
  "world_tls_404 =
     world_quiet
     \<lparr> site_get := (\<lambda>u. Inl (Raise SSLError ''certificate verify failed'')),
       site_get_http :=
         (\<lambda>u. Inr \<lparr> status_code = 404, final_url = u, body_text = ''Not Found'' \<rparr>) \<rparr>"

text \<open>The page-speed service answers with an error object and no score.\<close>

definition world_quota :: world where
  "world_quota =
     world_quiet
     \<lparr> pagespeed_get :=
         (\<lambda>ps. Inr (JDict [(''error'',
                   JDict [(''code'', JInt 429), (''message'', JStr ''Quota exceeded'')])])) \<rparr>"

text \<open>
  The site answers with a page, and the page-speed service reports the score 0.55, for
  which \<^verbatim>\<open>int(score * 100)\<close> is 55.
\<close>

definition world_speed_55 :: world where
  "world_speed_55 =
     world_quiet
     \<lparr> site_get :=
         (\<lambda>u. Inr \<lparr> status_code = 200, final_url = u,
                     body_text = ''<html><title>Joe</title></html>'' \<rparr>),
       pagespeed_get :=
         (\<lambda>ps. Inr (JDict [(''lighthouseResult'',
                   JDict [(''categories'',
                     JDict [(''performance'', JDict [(''score'', JFloat (11 / 20))])])])])),
       scaled_int :=
         (\<lambda>j. if j = JFloat (11 / 20) then Inr 55 else Inl (Raise TypeError ''unsupported'')) \<rparr>"

text \<open>A result page whose first 3000 characters are blank, with the listing after them.\<close>

definition long_page :: string where
  "long_page = replicate 3000 CHR '' '' @ ''4.5 (12 reviews)''"

definition world_long_page :: world where
  "world_long_page = world_quiet \<lparr> search_text := (\<lambda>q. Inr long_page) \<rparr>"

text \<open>A result page with the listing at its head.\<close>

definition world_listing :: world where
  "world_listing =
     world_quiet
     \<lparr> search_text := (\<lambda>q. Inr ''Joe's Garage 14.5 mi 4.7 (692 Google reviews) Open now'') \<rparr>"

section \<open>Sessions of the examples\<close>

text \<open>The lines that an operator types, in the order of the prompts.\<close>

definition joes_garage :: "string list" where
  "joes_garage =
     [''Joe's Garage'', ''Auto Repair'', ''Humble, TX'', '''',
      '''', '''',
      '''', '''', '''', '''',
      ''3'', ''2'', ''1'',
      '''',
      ''Claim the Google listing'', '''', '''',
      '''']"

definition joes_garage_online :: "string list" where
  "joes_garage_online =
     [''Joe's Garage'', ''Auto Repair'', ''Humble, TX'', ''joes.example'',
      ''4.2'', ''17'',
      '''', '''', '''', '''',
      '''', '''',
      ''3'', ''2'', ''1'',
      '''',
      ''Compress the images'', '''', '''',
      '''']"

definition joes_garage_confirmed :: "string list" where
  "joes_garage_confirmed =
     [''Joe's Garage'', ''Auto Repair'', ''Humble, TX'', ''joes.example'', ''Y'',
      ''4.2'', ''17'',
      '''', '''', '''', '''',
      '''',
      ''2'',
      ''3'', ''2'', ''1'',
      '''',
      '''', '''', '''',
      '''']"

text \<open>The six messages of \<^verbatim>\<open>auto_website_score\<close>, in the order of its tests.\<close>

definition all_issues :: "string list" where
  "all_issues =
     [''City not in page title'',
      ''City not in main headline'',
      ''City name not found in page content'',
      ''Service type not clearly mentioned on page'',
      ''No mobile viewport meta tag '' @ em_dash @ '' may not be mobile friendly'',
      ''No phone number detected on page'']"

section \<open>Theorems\<close>

subsection \<open>Rounding\<close>

lemma py_round_half:
  "py_round (of_int k / 2) =
     (if even k then k div 2 else if even (k div 2) then k div 2 else k div 2 + 1)"
proof (cases "even k")
  case True
  then obtain j where "k = 2 * j" by (auto elim: evenE)
  then show ?thesis by (simp add: py_round_def)
next
  case False
  then obtain j where k: "k = 2 * j + 1" by (auto elim: oddE)
  have e: "(of_int (2 * j + 1) :: rat) / 2 = of_int j + 1 / 2"
    by (simp add: field_simps)
  have f: "\<lfloor>(of_int j :: rat) + 1 / 2\<rfloor> = j"
    by (simp add: floor_unique)
  show ?thesis
    unfolding k e py_round_def Let_def f by simp
qed

lemma py_round_floor:
  obtains f :: int where "of_int f \<le> x" "x < of_int f + 1"
    "py_round x = (if x - of_int f < 1 / 2 then f else if 1 / 2 < x - of_int f then f + 1
                   else if even f then f else f + 1)"
proof -
  have "of_int \<lfloor>x\<rfloor> \<le> x" "x < of_int \<lfloor>x\<rfloor> + 1" by linarith+
  moreover have "py_round x = (if x - of_int \<lfloor>x\<rfloor> < 1 / 2 then \<lfloor>x\<rfloor>
      else if 1 / 2 < x - of_int \<lfloor>x\<rfloor> then \<lfloor>x\<rfloor> + 1
      else if even \<lfloor>x\<rfloor> then \<lfloor>x\<rfloor> else \<lfloor>x\<rfloor> + 1)"
    unfolding py_round_def Let_def ..
  ultimately show ?thesis by (rule that)
qed

lemma py_round_bounds:
  "of_int (py_round x) \<le> x + 1 / 2" "x - 1 / 2 \<le> of_int (py_round x)"
proof -
  obtain f :: int where f: "of_int f \<le> x" "x < of_int f + 1"
    and r: "py_round x = (if x - of_int f < 1 / 2 then f else if 1 / 2 < x - of_int f then f + 1
                   else if even f then f else f + 1)"
    by (rule py_round_floor)
  show "of_int (py_round x) \<le> x + 1 / 2"
    unfolding r using f by (auto split: if_splits)
  show "x - 1 / 2 \<le> of_int (py_round x)"
    unfolding r using f by (auto split: if_splits)
qed

lemma py_round_tie:
  assumes "\<bar>of_int (py_round x) - x\<bar> = 1 / 2"
  shows "even (py_round x)"
proof -
  obtain f :: int where f: "of_int f \<le> x" "x < of_int f + 1"
    and r: "py_round x = (if x - of_int f < 1 / 2 then f else if 1 / 2 < x - of_int f then f + 1
                   else if even f then f else f + 1)"
    by (rule py_round_floor)
  show ?thesis
    using assms f unfolding r by (auto simp: abs_if split: if_splits)
qed

lemma py_round_ge_1: "1 \<le> x \<Longrightarrow> 1 \<le> py_round x"
proof -
  assume "1 \<le> x"
  then have "1 \<le> \<lfloor>x\<rfloor>" by (simp add: le_floor_iff)
  then show ?thesis unfolding py_round_def Let_def by (auto split: if_splits)
qed

lemma py_round_le_1: "x < 1 \<Longrightarrow> py_round x \<le> 1"
proof -
  assume "x < 1"
  then have "\<lfloor>x\<rfloor> \<le> 0" by (simp add: floor_le_iff)
  then show ?thesis unfolding py_round_def Let_def by (auto split: if_splits)
qed

text \<open>Clamping at 1 after rounding is clamping at 1 before it.\<close>

lemma clamp_round:
  "\<bar>of_int (max 1 (py_round x)) - max 1 x\<bar> \<le> 1 / 2
   \<and> (\<bar>of_int (max 1 (py_round x)) - max 1 x\<bar> = 1 / 2 \<longrightarrow> even (max 1 (py_round x)))"
proof (cases "1 \<le> x")
  case True
  then have m: "max 1 (py_round x) = py_round x" "max 1 x = x"
    using py_round_ge_1[of x] by simp_all
  show ?thesis unfolding m using py_round_bounds[of x] py_round_tie[of x] by (auto simp: abs_if)
next
  case False
  then have m: "max 1 (py_round x) = 1" "max 1 x = 1"
    using py_round_le_1[of x] by simp_all
  show ?thesis unfolding m by simp
qed

lemma py_round_values:
  "py_round (1 / 2) = 0" "py_round 1 = 1" "py_round (3 / 2) = 2" "py_round 2 = 2"
  "py_round (5 / 2) = 2" "py_round 3 = 3" "py_round (7 / 2) = 4" "py_round 4 = 4"
  "py_round (9 / 2) = 4" "py_round 5 = 5"
  using py_round_half[of 1] py_round_half[of 2] py_round_half[of 3] py_round_half[of 4]
    py_round_half[of 5] py_round_half[of 6] py_round_half[of 7] py_round_half[of 8]
    py_round_half[of 9] py_round_half[of 10]
  by simp_all

subsection \<open>The website score\<close>

lemma not_get_seo_dict:
  "not_get (seo_dict t h c s m p) ''city_in_title'' = (\<not> t)"
  "not_get (seo_dict t h c s m p) ''city_in_h1'' = (\<not> h)"
  "not_get (seo_dict t h c s m p) ''city_in_content'' = (\<not> c)"
  "not_get (seo_dict t h c s m p) ''service_mentioned'' = (\<not> s)"
  "not_get (seo_dict t h c s m p) ''is_mobile_ready'' = (\<not> m)"
  "not_get (seo_dict t h c s m p) ''has_phone'' = (\<not> p)"
  by (simp_all add: not_get_def seo_dict_def)

lemma fst_penalise: "fst (penalise s k p msg st) = fst st - (if not_get s k then p else 0)"
  by (simp add: penalise_def)

lemma if_neg: "(if \<not> b then x else y) = (if b then y else x)"
  by simp

lemma diff_chain: "x - a - b - c - d - e - f = x - (a + b + c + d + e + (f::rat))"
  by simp

lemma score_of_seo_dict:
  "fst (auto_website_score True (seo_dict t h c s m p))
     = max 1 (py_round (5 - penalty_sum t h c s m p))"
  unfolding auto_website_score_def Let_def penalty_sum_def
  by (simp only: fst_conv fst_penalise not_get_seo_dict not_True_eq_False if_False if_neg
        diff_chain)

lemma penalty_sum_title_only: "penalty_sum False True True True True True = 1 / 2"
  by (simp add: penalty_sum_def)

text \<open>
  C1, as stated, fails. With only the city missing from the title the penalties sum to
  one half; rounding 4.5 with halves up gives 5, and the program returns 4.
\<close>

theorem website_score_half_up_counterexample:
  "fst (auto_website_score True (seo_dict False True True True True True))
     \<noteq> round_half_up (max 1 (5 - penalty_sum False True True True True True))"
  unfolding score_of_seo_dict penalty_sum_title_only
  by (simp add: round_half_up_def py_round_values)

text \<open>
  C1, amended. For every choice of the six signals, with the site reachable, the score is
  the integer nearest to five minus the penalties of the missing signals, clamped below
  at 1, and a value halfway between two integers goes to the even one.
\<close>

theorem website_score_formula:
  "\<bar>of_int (fst (auto_website_score True (seo_dict t h c s m p)))
      - max 1 (5 - penalty_sum t h c s m p)\<bar> \<le> 1 / 2
   \<and> (\<bar>of_int (fst (auto_website_score True (seo_dict t h c s m p)))
        - max 1 (5 - penalty_sum t h c s m p)\<bar> = 1 / 2
        \<longrightarrow> even (fst (auto_website_score True (seo_dict t h c s m p))))"
  unfolding score_of_seo_dict by (rule clamp_round)

theorem website_score_formula_witness:
  "\<bar>of_int (fst (auto_website_score True (seo_dict False True True True True True)))
      - max 1 (5 - penalty_sum False True True True True True)\<bar> = 1 / 2
   \<and> fst (auto_website_score True (seo_dict False True True True True True)) = 4
   \<and> even (fst (auto_website_score True (seo_dict False True True True True True)))"
  using website_score_formula[of False True True True True True]
  unfolding score_of_seo_dict penalty_sum_title_only by (simp add: py_round_values)

subsection \<open>Page speed and score bands\<close>

text \<open>
  C2. For every percentage from 0 to 100 the page-speed score lies between 1 and 5,
  follows the thresholds 90, 70, 50 and 30, and does not decrease when the percentage
  grows.
\<close>

theorem pagespeed_thresholds:
  "0 \<le> p \<Longrightarrow> p \<le> 100 \<Longrightarrow>
   (\<exists>s. pagespeed_to_score (Some p) = Some s \<and> 1 \<le> s \<and> s \<le> 5
      \<and> (90 \<le> p \<longrightarrow> s = 5)
      \<and> (70 \<le> p \<and> p \<le> 89 \<longrightarrow> s = 4)
      \<and> (50 \<le> p \<and> p \<le> 69 \<longrightarrow> s = 3)
      \<and> (30 \<le> p \<and> p \<le> 49 \<longrightarrow> s = 2)
      \<and> (p < 30 \<longrightarrow> s = 1)
      \<and> (\<forall>q t. p \<le> q \<and> q \<le> 100 \<and> pagespeed_to_score (Some q) = Some t \<longrightarrow> s \<le> t))"
  by (auto simp: pagespeed_to_score_def split: if_splits)

theorem pagespeed_thresholds_witness:
  "pagespeed_to_score (Some 89) = Some 4 \<and> pagespeed_to_score (Some 90) = Some 5
   \<and> (\<exists>s. pagespeed_to_score (Some 69) = Some s \<and> s = 3
          \<and> (\<forall>q t. 69 \<le> q \<and> q \<le> 100 \<and> pagespeed_to_score (Some q) = Some t \<longrightarrow> s \<le> t))"
  using pagespeed_thresholds[of 69] by (auto simp: pagespeed_to_score_def)

text \<open>
  C4. For a score between 0 and its maximum, 5 or 25, colour and label fall in the same
  one of three bands: below 40 percent of the maximum, from 40 percent to below 70
  percent, and from 70 percent on. The three colours and the three labels are distinct.
\<close>

theorem score_bands:
  "m = 5 \<or> m = 25 \<Longrightarrow> 0 \<le> s \<Longrightarrow> s \<le> m \<Longrightarrow>
   (100 * s < 40 * m \<longrightarrow> score_color s m = Inr RED \<and> score_label s m = Inr ''Needs Work'')
   \<and> (40 * m \<le> 100 * s \<and> 100 * s < 70 * m
        \<longrightarrow> score_color s m = Inr ORANGE \<and> score_label s m = Inr ''Fair'')
   \<and> (70 * m \<le> 100 * s \<longrightarrow> score_color s m = Inr GREEN \<and> score_label s m = Inr ''Good'')
   \<and> RED \<noteq> ORANGE \<and> ORANGE \<noteq> GREEN \<and> RED \<noteq> GREEN"
  by (auto simp: score_color_def score_label_def true_div_def RED_def ORANGE_def GREEN_def
        field_simps)

theorem score_bands_witness:
  "score_color 2 5 = Inr ORANGE \<and> score_label 2 5 = Inr ''Fair''
   \<and> score_color 10 25 = Inr ORANGE \<and> score_color 9 25 = Inr RED
   \<and> score_label 18 25 = Inr ''Good'' \<and> score_label 17 25 = Inr ''Fair''"
  using score_bands[of 5 2] score_bands[of 25 10] score_bands[of 25 9] score_bands[of 25 18]
    score_bands[of 25 17]
  by simp

subsection \<open>The menu prompt\<close>

lemma prompt_choice_Inr:
  "prompt_choice n ls = Inr (v, rest) \<Longrightarrow>
   \<exists>pre l. ls = pre @ l # rest \<and> py_int (strip l) = Inr v \<and> 1 \<le> v \<and> v \<le> int n
     \<and> (\<forall>x\<in>set pre. \<forall>k. py_int (strip x) = Inr k \<longrightarrow> \<not> (1 \<le> k \<and> k \<le> int n))"
proof (induction ls)
  case Nil
  then show ?case by simp
next
  case (Cons a ls)
  show ?case
  proof (cases "\<exists>k. py_int (strip a) = Inr k \<and> 1 \<le> k \<and> k \<le> int n")
    case True
    then obtain k where k: "py_int (strip a) = Inr k" "1 \<le> k" "k \<le> int n" by blast
    with Cons.prems have "v = k" "rest = ls" by simp_all
    with k have "a # ls = [] @ a # rest \<and> py_int (strip a) = Inr v \<and> 1 \<le> v \<and> v \<le> int n
       \<and> (\<forall>x\<in>set []. \<forall>k. py_int (strip x) = Inr k \<longrightarrow> \<not> (1 \<le> k \<and> k \<le> int n))"
      by simp
    then show ?thesis by blast
  next
    case False
    then have "prompt_choice n (a # ls) = prompt_choice n ls"
      by (auto split: sum.splits)
    with Cons.prems have "prompt_choice n ls = Inr (v, rest)" by simp
    from Cons.IH[OF this] obtain pre l where
      p: "ls = pre @ l # rest" "py_int (strip l) = Inr v" "1 \<le> v" "v \<le> int n"
       "\<forall>x\<in>set pre. \<forall>k. py_int (strip x) = Inr k \<longrightarrow> \<not> (1 \<le> k \<and> k \<le> int n)"
      by blast
    with False have "a # ls = (a # pre) @ l # rest \<and> py_int (strip l) = Inr v
       \<and> 1 \<le> v \<and> v \<le> int n
       \<and> (\<forall>x\<in>set (a # pre). \<forall>k. py_int (strip x) = Inr k \<longrightarrow> \<not> (1 \<le> k \<and> k \<le> int n))"
      by auto
    then show ?thesis by blast
  qed
qed

text \<open>
  C10. When \<^verbatim>\<open>prompt\<close> is called with a list of options that is not empty and returns,
  it returns an integer between 1 and the number of options: the reading of the first
  line of input that is an integer in that range. Every line before it was no integer or
  out of range, and was passed over.
\<close>

theorem prompt_in_range:
  assumes "options \<noteq> []" and "prompt (Some options) dflt stdin = Inr (a, rest)"
  shows "\<exists>n pre l. a = Number n \<and> 1 \<le> n \<and> n \<le> int (length options)
           \<and> stdin = pre @ l # rest \<and> py_int (strip l) = Inr n
           \<and> (\<forall>x\<in>set pre. \<forall>k. py_int (strip x) = Inr k
                 \<longrightarrow> \<not> (1 \<le> k \<and> k \<le> int (length options)))"
proof -
  from assms(1) obtain opt opts where o: "options = opt # opts" by (cases options) auto
  from assms(2) obtain n where
    n: "prompt_choice (length options) stdin = Inr (n, rest)" "a = Number n"
    unfolding o prompt_def by (auto split: sum.splits)
  from prompt_choice_Inr[OF n(1)] n(2) show ?thesis by blast
qed

lemma score_opts_run:
  "prompt (Some [''1 - Very Poor'', ''2 - Poor'', ''3 - Fair'', ''4 - Good'', ''5 - Excellent''])
     None [''abc'', ''9'', '''', '' 4 '', ''2''] = Inr (Number 4, [''2''])"
  by code_simp

theorem prompt_in_range_witness:
  "\<exists>n pre l. Number 4 = Number n \<and> 1 \<le> n \<and> n \<le> 5
      \<and> [''abc'', ''9'', '''', '' 4 '', ''2''] = pre @ l # [''2''] \<and> py_int (strip l) = Inr n"
  using prompt_in_range[of
      "[''1 - Very Poor'', ''2 - Poor'', ''3 - Fair'', ''4 - Good'', ''5 - Excellent'']"
      None "[''abc'', ''9'', '''', '' 4 '', ''2'']" "Number 4" "[''2'']"] score_opts_run
  by auto

subsection \<open>Reachability\<close>

text \<open>
  C5 does not hold of the fallback. For \<^verbatim>\<open>example.com\<close> the request to
  \<^verbatim>\<open>https://example.com\<close> fails in TLS, the request to \<^verbatim>\<open>http://example.com\<close> is
  answered with status 404, and \<^verbatim>\<open>check_website\<close> reports the site as reachable: the
  fallback returns success for any response, without the test of the status that the
  first request has.
\<close>

theorem check_website_fallback_404:
  "check_website world_tls_404 (Some ''example.com'')
     = (True, Some ''http://example.com'', Some ''Not Found'')"
  by code_simp

subsection \<open>The page-speed lookup\<close>

text \<open>
  C7. \<^verbatim>\<open>get_pagespeed_score\<close> returns \<^verbatim>\<open>None\<close> for the percentage, with a
  description, for a missing address, for every exception of the request or of the
  decoding, for every response in which the chain of lookups fails or finds no score, and
  for a score that cannot be converted. The description is the text of the exception, or
  the message of the error object of the response (\<^verbatim>\<open>Unknown error\<close> without one).
  A percentage is returned only when request, lookups and conversion all succeed.
\<close>

theorem pagespeed_unavailable:
  "(url = None \<or> url = Some [] \<longrightarrow> get_pagespeed_score w url = (None, JStr ''No website''))
   \<and> (\<forall>u e. url = Some u \<and> u \<noteq> [] \<and> pagespeed_get w (pagespeed_params w u) = Inl e
         \<longrightarrow> get_pagespeed_score w url = (None, JStr (str_exn e)))
   \<and> (\<forall>u data e. url = Some u \<and> u \<noteq> [] \<and> pagespeed_get w (pagespeed_params w u) = Inr data
          \<and> score_field data = Inl e
         \<longrightarrow> get_pagespeed_score w url = (None, JStr (str_exn e)))
   \<and> (\<forall>u data. url = Some u \<and> u \<noteq> [] \<and> pagespeed_get w (pagespeed_params w u) = Inr data
          \<and> score_field data = Inr JNull
         \<longrightarrow> get_pagespeed_score w url =
               (None, case bind (dict_get data ''error'' (JDict []))
                             (\<lambda>err. dict_get err ''message'' (JStr ''Unknown error'')) of
                        Inr message \<Rightarrow> message
                      | Inl e \<Rightarrow> JStr (str_exn e)))
   \<and> (\<forall>u data score e. url = Some u \<and> u \<noteq> []
          \<and> pagespeed_get w (pagespeed_params w u) = Inr data
          \<and> score_field data = Inr score \<and> score \<noteq> JNull \<and> scaled_int w score = Inl e
         \<longrightarrow> get_pagespeed_score w url = (None, JStr (str_exn e)))
   \<and> (\<forall>p. fst (get_pagespeed_score w url) = Some p \<longrightarrow>
         (\<exists>u data score. url = Some u \<and> u \<noteq> []
            \<and> pagespeed_get w (pagespeed_params w u) = Inr data
            \<and> score_field data = Inr score \<and> score \<noteq> JNull \<and> scaled_int w score = Inr p))"
  by (auto simp: get_pagespeed_score_def pagespeed_try_def bind_def
        split: option.splits sum.splits if_splits)

lemma quota_response:
  "pagespeed_get world_quota (pagespeed_params world_quota ''https://example.com'')
     = Inr (JDict [(''error'',
              JDict [(''code'', JInt 429), (''message'', JStr ''Quota exceeded'')])])"
  "score_field (JDict [(''error'',
              JDict [(''code'', JInt 429), (''message'', JStr ''Quota exceeded'')])]) = Inr JNull"
  "bind (dict_get (JDict [(''error'',
              JDict [(''code'', JInt 429), (''message'', JStr ''Quota exceeded'')])])
            ''error'' (JDict []))
     (\<lambda>err. dict_get err ''message'' (JStr ''Unknown error'')) = Inr (JStr ''Quota exceeded'')"
  by (simp_all add: world_quota_def world_quiet_def score_field_def bind_def)

lemma quiet_response:
  "pagespeed_get world_quiet (pagespeed_params world_quiet ''https://example.com'')
     = Inl (Raise RequestError ''connection refused'')"
  by (simp add: world_quiet_def)

theorem pagespeed_unavailable_witness:
  "get_pagespeed_score world_quota (Some ''https://example.com'')
     = (None, JStr ''Quota exceeded'')
   \<and> get_pagespeed_score world_quiet (Some ''https://example.com'')
     = (None, JStr ''connection refused'')"
  using pagespeed_unavailable[of "Some ''https://example.com''" world_quota]
    pagespeed_unavailable[of "Some ''https://example.com''" world_quiet]
    quota_response quiet_response
  by simp

subsection \<open>The interview\<close>

lemma bind_Inr: "bind m f = Inr y \<longleftrightarrow> (\<exists>x. m = Inr x \<and> f x = Inr y)"
  by (cases m) (simp_all add: bind_def)

text \<open>
  The loop of the manual findings returns only with no finding: once a finding has been
  entered, no empty line ends the loop, since the last finding entered is never empty.
\<close>

lemma manual_findings_nonempty:
  "\<forall>x\<in>set found. x \<noteq> [] \<Longrightarrow> manual_findings found ls = Inr (m, rest) \<Longrightarrow> m = [] \<and> found = []"
proof (induction ls arbitrary: found)
  case Nil
  then show ?case by simp
next
  case (Cons l ls)
  show ?case
  proof (cases "strip l = []")
    case True
    show ?thesis
    proof (cases "found = []")
      case True
      with \<open>strip l = []\<close> Cons.prems(2) show ?thesis by simp
    next
      case False
      with Cons.prems(1) have "last found \<noteq> []" by simp
      with False \<open>strip l = []\<close> Cons.prems(2) have "manual_findings found ls = Inr (m, rest)"
        by simp
      from Cons.IH[OF Cons.prems(1) this] False show ?thesis by simp
    qed
  next
    case False
    with Cons.prems(2) have "manual_findings (found @ [strip l]) ls = Inr (m, rest)"
      by (simp add: Let_def)
    moreover have "\<forall>x\<in>set (found @ [strip l]). x \<noteq> []" using Cons.prems(1) False by simp
    ultimately have "m = [] \<and> found @ [strip l] = []" by (rule Cons.IH[rotated])
    then show ?thesis by simp
  qed
qed

lemma bindE:
  assumes "bind m f = Inr y"
  obtains x where "m = Inr x" "f x = Inr y"
  using assms by (auto simp: bind_Inr)

lemma auto_fetch_Inr_ex:
  assumes "auto_fetch w i s = Inr (f, s')"
  shows "\<exists>seo.
    pagespeed_pct f = fst (if site_exists f then get_pagespeed_score w (site_url f) else (None, JStr ''No website''))
    \<and> auto_speed_score f = pagespeed_to_score (pagespeed_pct f)
    \<and> auto_site_score f = fst (auto_website_score (site_exists f) seo)
    \<and> auto_findings f = snd (auto_website_score (site_exists f) seo) @ speed_findings (pagespeed_pct f)
    \<and> (\<exists>s1. confirm_site w i s = Inr ((site_exists f, site_url f, html f), s1))
    \<and> (if truthy (html f) then check_website_seo_basics w (html f) (info_city i) (info_type i) else Inr Map.empty) = Inr seo"
  using assms unfolding auto_fetch_def
  by (elim bindE) (auto split: prod.splits elim!: bindE)

lemma auto_fetch_Inr:
  assumes "auto_fetch w i s = Inr (f, s')"
  obtains seo where
    "pagespeed_pct f = fst (if site_exists f then get_pagespeed_score w (site_url f) else (None, JStr ''No website''))"
    "auto_speed_score f = pagespeed_to_score (pagespeed_pct f)"
    "auto_site_score f = fst (auto_website_score (site_exists f) seo)"
    "auto_findings f = snd (auto_website_score (site_exists f) seo) @ speed_findings (pagespeed_pct f)"
    "\<exists>s1. confirm_site w i s = Inr ((site_exists f, site_url f, html f), s1)"
    "(if truthy (html f) then check_website_seo_basics w (html f) (info_city i) (info_type i) else Inr Map.empty) = Inr seo"
  using auto_fetch_Inr_ex[OF assms] by blast

lemma collect_data_Inr:
  assumes "collect_data w stdin = Inr d"
  obtains i s1 f s2 c s3 sc s4 s5 where
    "business_info stdin = Inr (i, s1)" "auto_fetch w i s1 = Inr (f, s2)"
    "competitor_part s2 = Inr (c, s3)" "scoring f s3 = Inr (sc, s4)"
    "manual_findings [] s4 = Inr ([], s5)"
    "has_website d = site_exists f" "website_score d = scored_website sc"
    "speed_score d = scored_speed sc" "findings d = auto_findings f"
proof -
  from assms obtain i s1 f s2 c s3 sc s4 manual s5 where
    a: "business_info stdin = Inr (i, s1)" "auto_fetch w i s1 = Inr (f, s2)"
    "competitor_part s2 = Inr (c, s3)" "scoring f s3 = Inr (sc, s4)"
    "manual_findings [] s4 = Inr (manual, s5)"
    "has_website d = site_exists f" "website_score d = scored_website sc"
    "speed_score d = scored_speed sc" "findings d = auto_findings f @ manual"
    unfolding collect_data_def by (elim bindE) (auto split: prod.splits elim!: bindE)
  from manual_findings_nonempty[OF _ a(5)] have "manual = []" by simp
  with a that show ?thesis by simp
qed

lemma scoring_no_site:
  assumes "scoring f s = Inr (sc, s')" "\<not> site_exists f" "auto_speed_score f = None"
  shows "scored_website sc = 1 \<and> scored_speed sc = 1"
  using assms unfolding scoring_def by (elim bindE) (auto split: prod.splits elim!: bindE)

text \<open>
  C3. When \<^verbatim>\<open>collect_data\<close> returns a record whose \<^verbatim>\<open>has_website\<close> is false (no
  website was reached, and none was confirmed by hand), the website score and the speed
  score of the record are 1 and its findings contain \<^verbatim>\<open>No website found\<close>.
\<close>

theorem no_website_scores:
  assumes "collect_data w stdin = Inr d" and "\<not> has_website d"
  shows "website_score d = 1 \<and> speed_score d = 1 \<and> ''No website found'' \<in> set (findings d)"
proof -
  from assms(1) obtain i s1 f s2 c s3 sc s4 s5 where
    a: "auto_fetch w i s1 = Inr (f, s2)" "scoring f s3 = Inr (sc, s4)"
    "has_website d = site_exists f" "website_score d = scored_website sc"
    "speed_score d = scored_speed sc" "findings d = auto_findings f"
    by (rule collect_data_Inr)
  from a(1) obtain seo where
    b: "pagespeed_pct f = fst (if site_exists f then get_pagespeed_score w (site_url f) else (None, JStr ''No website''))"
    "auto_speed_score f = pagespeed_to_score (pagespeed_pct f)"
    "auto_findings f = snd (auto_website_score (site_exists f) seo) @ speed_findings (pagespeed_pct f)"
    by (rule auto_fetch_Inr)
  from assms(2) a(3) have n: "\<not> site_exists f" by simp
  with b have "pagespeed_pct f = None" "auto_speed_score f = None"
    "auto_findings f = [''No website found'']"
    by (simp_all add: pagespeed_to_score_def auto_website_score_def speed_findings_def)
  with scoring_no_site[OF a(2) n] a show ?thesis by simp
qed

lemma joes_garage_run:
  "collect_data world_quiet joes_garage =
     Inr \<lparr> business_name = Some ''Joe's Garage'', business_type = Some ''Auto Repair'',
        business_city = Some ''Humble, TX'', has_website = False,
        website_url = ''None'', review_rating = Some ''none'',
        review_count = Some ''0'', comp_name = Some ''N/A'',
        comp_reviews = Some ''N/A'', comp_rating = Some ''N/A'',
        comp_has_site = True, website_score = 1, speed_score = 1,
        gbp_score = 3, visibility_score = 2, geo_score = 1,
        findings = [''No website found''], recommendations = [''Claim the Google listing''],
        auditor_name = Some ''Queso Ventures'',
        audit_date = ''November 04, 2026'' \<rparr>"
  by code_simp

theorem no_website_scores_witness:
  "\<exists>d. collect_data world_quiet joes_garage = Inr d \<and> \<not> has_website d
      \<and> website_score d = 1 \<and> speed_score d = 1 \<and> ''No website found'' \<in> set (findings d)"
  using no_website_scores[OF joes_garage_run] joes_garage_run by simp

lemma snd_penalise:
  "set (snd st) \<subseteq> A \<Longrightarrow> msg \<in> A \<Longrightarrow> set (snd (penalise s k p msg st)) \<subseteq> A"
  by (auto simp: penalise_def)

lemma all_issues_mem:
  "''City not in page title'' \<in> set all_issues"
  "''City not in main headline'' \<in> set all_issues"
  "''City name not found in page content'' \<in> set all_issues"
  "''Service type not clearly mentioned on page'' \<in> set all_issues"
  "(''No mobile viewport meta tag '' @ em_dash @ '' may not be mobile friendly'') \<in> set all_issues"
  "''No phone number detected on page'' \<in> set all_issues"
  unfolding all_issues_def by (simp_all only: list.set insertI1 insertI2)

lemma issues_subset_True:
  "set (snd (auto_website_score True seo)) \<subseteq> set all_issues"
  unfolding auto_website_score_def Let_def
  apply (simp only: not_True_eq_False if_False snd_conv)
  apply (intro snd_penalise all_issues_mem)
  apply simp
  done

lemma issues_subset:
  "set (snd (auto_website_score ex seo)) \<subseteq> insert ''No website found'' (set all_issues)"
proof (cases ex)
  case False
  then show ?thesis by (simp add: auto_website_score_def)
next
  case True
  then have "set (snd (auto_website_score ex seo)) \<subseteq> set all_issues"
    using issues_subset_True[of seo] by simp
  then show ?thesis by (rule subset_insertI2)
qed

lemma str_nat_decimal: "c \<in> set (str_nat n) \<Longrightarrow> is_decimal c"
proof (induction n rule: str_nat.induct)
  case (1 n)
  show ?case
  proof (cases "n < 10")
    case True
    with "1.prems" have "c = char_of (48 + n)" by (simp add: str_nat.simps[of n])
    with True show ?thesis by (simp add: is_decimal_def)
  next
    case False
    with "1.prems" have "c \<in> set (str_nat (n div 10)) \<or> c = char_of (48 + n mod 10)"
      by (auto simp: str_nat.simps[of n])
    then show ?thesis
    proof
      assume "c \<in> set (str_nat (n div 10))"
      with "1.IH" False show ?thesis by simp
    next
      assume "c = char_of (48 + n mod 10)"
      moreover have "n mod 10 < 10" by simp
      ultimately show ?thesis by (simp add: is_decimal_def)
    qed
  qed
qed

lemma m_not_in_str_int: "CHR ''m'' \<notin> set (str_int p)"
proof
  assume "CHR ''m'' \<in> set (str_int p)"
  then have "CHR ''m'' = CHR ''-'' \<or> CHR ''m'' \<in> set (str_nat (nat (- p))) \<or> CHR ''m'' \<in> set (str_nat (nat p))"
    by (auto simp: str_int_def split: if_splits)
  then have "is_decimal CHR ''m''" using str_nat_decimal by auto
  then show False by (simp add: is_decimal_def)
qed

lemma no_needs_improvement_in_issues:
  "x \<in> insert ''No website found'' (set all_issues) \<Longrightarrow> \<not> sublist ''needs improvement'' x"
proof -
  have "\<not> sublist ''needs improvement'' ''No website found''"
    "\<not> sublist ''needs improvement'' ''City not in page title''"
    "\<not> sublist ''needs improvement'' ''City not in main headline''"
    "\<not> sublist ''needs improvement'' ''City name not found in page content''"
    "\<not> sublist ''needs improvement'' ''Service type not clearly mentioned on page''"
    "\<not> sublist ''needs improvement'' (''No mobile viewport meta tag '' @ em_dash @ '' may not be mobile friendly'')"
    "\<not> sublist ''needs improvement'' ''No phone number detected on page''"
    by code_simp+
  then show "x \<in> insert ''No website found'' (set all_issues) \<Longrightarrow> \<not> sublist ''needs improvement'' x"
    unfolding all_issues_def by auto
qed

lemma needs_improvement_speed:
  assumes "x \<in> set (speed_findings pct)" "sublist ''needs improvement'' x"
  shows "\<exists>p. pct = Some p \<and> 50 \<le> p \<and> p < 70"
proof (cases pct)
  case None
  with assms show ?thesis by (simp add: speed_findings_def)
next
  case (Some p)
  show ?thesis
  proof (cases "p < 50")
    case True
    with Some assms(1) have x: "x = ''Mobile PageSpeed score is '' @ str_int p @ ''/100 '' @ em_dash
              @ '' very slow, hurts rankings''"
      by (simp add: speed_findings_def)
    from assms(2) have "set ''needs improvement'' \<subseteq> set x" by (rule set_mono_sublist)
    then have "CHR ''m'' \<in> set x" by auto
    then show ?thesis unfolding x using m_not_in_str_int[of p] by (auto simp: em_dash_def)
  next
    case False
    with Some assms(1) show ?thesis by (auto simp: speed_findings_def split: if_splits)
  qed
qed

text \<open>
  C6. When \<^verbatim>\<open>collect_data\<close> returns a record and the fetched page-speed percentage
  was 55, the derived speed score is 3 and the findings of the record contain the message
  that ends in \<^verbatim>\<open>needs improvement\<close>. Whenever a finding of the record contains
  \<^verbatim>\<open>needs improvement\<close>, a percentage was fetched and it is below 70.
\<close>

theorem speed_55_needs_improvement:
  assumes "collect_data w stdin = Inr d"
  shows "\<exists>i s1 f s2. business_info stdin = Inr (i, s1) \<and> auto_fetch w i s1 = Inr (f, s2)
     \<and> findings d = auto_findings f
     \<and> (pagespeed_pct f = Some 55 \<longrightarrow>
          auto_speed_score f = Some 3
          \<and> (''Mobile PageSpeed score is 55/100 '' @ em_dash @ '' needs improvement'')
               \<in> set (findings d))
     \<and> (\<forall>x\<in>set (findings d). sublist ''needs improvement'' x \<longrightarrow>
          (\<exists>p. pagespeed_pct f = Some p \<and> p < 70))"
proof -
  from assms obtain i s1 f s2 where
    a: "business_info stdin = Inr (i, s1)" "auto_fetch w i s1 = Inr (f, s2)"
    "findings d = auto_findings f"
    by (rule collect_data_Inr)
  from a(2) obtain seo where
    b: "auto_speed_score f = pagespeed_to_score (pagespeed_pct f)"
    "auto_findings f = snd (auto_website_score (site_exists f) seo) @ speed_findings (pagespeed_pct f)"
    by (rule auto_fetch_Inr)
  have s55: "str_int 55 = ''55''" by code_simp
  have one: "pagespeed_pct f = Some 55 \<longrightarrow>
          auto_speed_score f = Some 3
          \<and> (''Mobile PageSpeed score is 55/100 '' @ em_dash @ '' needs improvement'')
               \<in> set (findings d)"
    unfolding a(3) b by (simp add: pagespeed_to_score_def speed_findings_def s55)
  have two: "\<forall>x\<in>set (findings d). sublist ''needs improvement'' x \<longrightarrow>
          (\<exists>p. pagespeed_pct f = Some p \<and> p < 70)"
  proof (intro ballI impI)
    fix x assume x: "x \<in> set (findings d)" and n: "sublist ''needs improvement'' x"
    from x have "x \<in> set (snd (auto_website_score (site_exists f) seo)) \<or> x \<in> set (speed_findings (pagespeed_pct f))"
      unfolding a(3) b by simp
    then show "\<exists>p. pagespeed_pct f = Some p \<and> p < 70"
    proof
      assume "x \<in> set (snd (auto_website_score (site_exists f) seo))"
      with issues_subset have "x \<in> insert ''No website found'' (set all_issues)" by blast
      with no_needs_improvement_in_issues n show ?thesis by blast
    next
      assume "x \<in> set (speed_findings (pagespeed_pct f))"
      from needs_improvement_speed[OF this n] show ?thesis by auto
    qed
  qed
  from a one two show ?thesis by blast
qed

lemma online_run:
  "collect_data world_speed_55 joes_garage_online =
     Inr \<lparr> business_name = Some ''Joe's Garage'', business_type = Some ''Auto Repair'',
        business_city = Some ''Humble, TX'', has_website = True,
        website_url = ''joes.example'', review_rating = Some ''4.2'',
        review_count = Some ''17'', comp_name = Some ''N/A'',
        comp_reviews = Some ''N/A'', comp_rating = Some ''N/A'',
        comp_has_site = True, website_score = 1, speed_score = 3,
        gbp_score = 3, visibility_score = 2, geo_score = 1,
        findings = all_issues
          @ [''Mobile PageSpeed score is 55/100 '' @ em_dash @ '' needs improvement''],
        recommendations = [''Compress the images''],
        auditor_name = Some ''Queso Ventures'',
        audit_date = ''November 04, 2026'' \<rparr>"
  by code_simp

lemma online_info:
  "business_info joes_garage_online =
     Inr (\<lparr> info_name = Some ''Joe's Garage'', info_type = Some ''Auto Repair'',
            info_city = Some ''Humble, TX'', info_has_website = True,
            info_website_url = ''joes.example'' \<rparr>,
          drop 4 joes_garage_online)"
  by code_simp

lemma online_fetch:
  "\<exists>f s2. auto_fetch world_speed_55
       \<lparr> info_name = Some ''Joe's Garage'', info_type = Some ''Auto Repair'',
         info_city = Some ''Humble, TX'', info_has_website = True,
         info_website_url = ''joes.example'' \<rparr>
       (drop 4 joes_garage_online) = Inr (f, s2) \<and> pagespeed_pct f = Some 55"
proof -
  have "auto_fetch world_speed_55
       \<lparr> info_name = Some ''Joe's Garage'', info_type = Some ''Auto Repair'',
         info_city = Some ''Humble, TX'', info_has_website = True,
         info_website_url = ''joes.example'' \<rparr>
       (drop 4 joes_garage_online)
     = Inr (\<lparr> site_exists = True, site_url = Some ''https://joes.example'',
              html = Some ''<html><title>Joe</title></html>'',
              auto_site_score = 1, pagespeed_pct = Some 55, auto_speed_score = Some 3,
              auto_findings = all_issues
                @ [''Mobile PageSpeed score is 55/100 '' @ em_dash @ '' needs improvement''],
              fetched_rating = Some ''4.2'', fetched_count = Some ''17'' \<rparr>,
            drop 6 joes_garage_online)"
    by code_simp
  then show ?thesis by simp
qed

theorem speed_55_needs_improvement_witness:
  "\<exists>d i s1 f s2. collect_data world_speed_55 joes_garage_online = Inr d
     \<and> business_info joes_garage_online = Inr (i, s1)
     \<and> auto_fetch world_speed_55 i s1 = Inr (f, s2)
     \<and> pagespeed_pct f = Some 55 \<and> auto_speed_score f = Some 3
     \<and> (''Mobile PageSpeed score is 55/100 '' @ em_dash @ '' needs improvement'')
          \<in> set (findings d)"
proof -
  from speed_55_needs_improvement[OF online_run] obtain i s1 f s2 where
    a: "business_info joes_garage_online = Inr (i, s1)"
    "auto_fetch world_speed_55 i s1 = Inr (f, s2)"
    and b: "pagespeed_pct f = Some 55 \<longrightarrow>
          auto_speed_score f = Some 3
          \<and> (''Mobile PageSpeed score is 55/100 '' @ em_dash @ '' needs improvement'')
               \<in> set (all_issues
          @ [''Mobile PageSpeed score is 55/100 '' @ em_dash @ '' needs improvement''])"
    by auto
  from a(1) online_info have i: "i = \<lparr> info_name = Some ''Joe's Garage'', info_type = Some ''Auto Repair'',
         info_city = Some ''Humble, TX'', info_has_website = True,
         info_website_url = ''joes.example'' \<rparr>" "s1 = drop 4 joes_garage_online"
    by simp_all
  from online_fetch a(2) have p: "pagespeed_pct f = Some 55" unfolding i by auto
  with b have "auto_speed_score f = Some 3" by simp
  with a p online_run show ?thesis by auto
qed

lemma confirm_yes:
  assumes "info_has_website i" "\<not> fst (check_website w (Some (info_website_url i)))"
    "prompt_text (Some ''n'') s1 = Inr (Some a, s2)" "lower a = ''y''"
  shows "confirm_site w i s1 = Inr ((True, clean_url (Some (info_website_url i)), None), s2)"
  using assms unfolding confirm_site_def by (auto simp: bind_def split: prod.splits)

lemma empty_seo_score: "auto_website_score True Map.empty = (1, all_issues)"
  by (simp add: auto_website_score_def penalise_def not_get_def all_issues_def py_round_values)

lemma score_in_range:
  "1 \<le> fst (auto_website_score True seo) \<and> fst (auto_website_score True seo) \<le> 5"
proof -
  define x where "x = 5 - (if not_get seo ''city_in_title'' then 1 / 2 else 0)
      - (if not_get seo ''city_in_h1'' then 1 / 2 else 0)
      - (if not_get seo ''city_in_content'' then 1 else 0)
      - (if not_get seo ''service_mentioned'' then 1 else 0)
      - (if not_get seo ''is_mobile_ready'' then 1 else 0)
      - (if not_get seo ''has_phone'' then 1 / 2 else (0::rat))"
  have s: "fst (auto_website_score True seo) = max 1 (py_round x)"
    unfolding auto_website_score_def Let_def x_def
    by (simp only: fst_conv fst_penalise not_True_eq_False if_False)
  have b: "\<And>c p. (0::rat) \<le> p \<Longrightarrow> 0 \<le> (if c then p else 0) \<and> (if c then p else 0) \<le> p"
    by simp
  have "x \<le> 5"
    unfolding x_def
    using b[of "1 / 2" "not_get seo ''city_in_title''"] b[of "1 / 2" "not_get seo ''city_in_h1''"]
      b[of 1 "not_get seo ''city_in_content''"] b[of 1 "not_get seo ''service_mentioned''"]
      b[of 1 "not_get seo ''is_mobile_ready''"] b[of "1 / 2" "not_get seo ''has_phone''"]
    by linarith
  with py_round_bounds(1)[of x] have "of_int (py_round x) < (6::rat)" by linarith
  then have "py_round x < 6" by simp
  then show ?thesis unfolding s by simp
qed

text \<open>
  C9. With the site taken to exist, \<^verbatim>\<open>auto_website_score\<close> returns a score from 1 to
  5 for every dictionary of signals. For the empty dictionary it returns 1 with all six
  messages. In an interview in which the site was not reached and the operator confirms
  it, no markup is at hand, and the record that \<^verbatim>\<open>collect_data\<close> returns has
  \<^verbatim>\<open>has_website\<close> true and the six messages at the head of its findings.
\<close>

theorem website_score_range:
  "1 \<le> fst (auto_website_score True seo) \<and> fst (auto_website_score True seo) \<le> 5
   \<and> auto_website_score True Map.empty = (1, all_issues)
   \<and> (\<forall>w stdin d i s1 a s2.
         collect_data w stdin = Inr d \<and> business_info stdin = Inr (i, s1)
         \<and> info_has_website i \<and> \<not> fst (check_website w (Some (info_website_url i)))
         \<and> prompt_text (Some ''n'') s1 = Inr (Some a, s2) \<and> lower a = ''y''
         \<longrightarrow> has_website d \<and> prefix all_issues (findings d))"
proof -
  have "has_website d \<and> prefix all_issues (findings d)"
    if c: "collect_data w stdin = Inr d" and bi: "business_info stdin = Inr (i, s1)"
      and h: "info_has_website i" "\<not> fst (check_website w (Some (info_website_url i)))"
        "prompt_text (Some ''n'') s1 = Inr (Some a, s2)" "lower a = ''y''"
    for w stdin d i s1 a s2
  proof -
    from c obtain i' s1' f s2' where
      a: "business_info stdin = Inr (i', s1')" "auto_fetch w i' s1' = Inr (f, s2')"
      "has_website d = site_exists f" "findings d = auto_findings f"
      by (rule collect_data_Inr)
    from a(1) bi have e: "i' = i" "s1' = s1" by simp_all
    from a(2) obtain seo where
      b: "auto_findings f = snd (auto_website_score (site_exists f) seo) @ speed_findings (pagespeed_pct f)"
      "\<exists>s1. confirm_site w i s1' = Inr ((site_exists f, site_url f, html f), s1)"
      "(if truthy (html f) then check_website_seo_basics w (html f) (info_city i) (info_type i) else Inr Map.empty) = Inr seo"
      unfolding e(1) by (rule auto_fetch_Inr)
    from b(2) confirm_yes[OF h] have f: "site_exists f" "html f = None"
      unfolding e by auto
    with b(3) have "seo = Map.empty" by (simp add: truthy_def)
    with b(1) f a show ?thesis by (simp add: empty_seo_score)
  qed
  with score_in_range[of seo] empty_seo_score show ?thesis by blast
qed

lemma confirmed_run:
  "collect_data world_quiet joes_garage_confirmed =
     Inr \<lparr> business_name = Some ''Joe's Garage'', business_type = Some ''Auto Repair'',
        business_city = Some ''Humble, TX'', has_website = True,
        website_url = ''joes.example'', review_rating = Some ''4.2'',
        review_count = Some ''17'', comp_name = Some ''N/A'',
        comp_reviews = Some ''N/A'', comp_rating = Some ''N/A'',
        comp_has_site = True, website_score = 1, speed_score = 2,
        gbp_score = 3, visibility_score = 2, geo_score = 1,
        findings = all_issues, recommendations = [],
        auditor_name = Some ''Queso Ventures'',
        audit_date = ''November 04, 2026'' \<rparr>"
  by code_simp

lemma confirmed_info:
  "business_info joes_garage_confirmed =
     Inr (\<lparr> info_name = Some ''Joe's Garage'', info_type = Some ''Auto Repair'',
            info_city = Some ''Humble, TX'', info_has_website = True,
            info_website_url = ''joes.example'' \<rparr>,
          drop 4 joes_garage_confirmed)"
  "\<not> fst (check_website world_quiet (Some ''joes.example''))"
  "prompt_text (Some ''n'') (drop 4 joes_garage_confirmed) = Inr (Some ''Y'', drop 5 joes_garage_confirmed)"
  "lower ''Y'' = ''y''"
  by code_simp+

theorem website_score_range_witness:
  "\<exists>d. collect_data world_quiet joes_garage_confirmed = Inr d \<and> has_website d
      \<and> prefix all_issues (findings d) \<and> website_score d = 1
      \<and> auto_website_score True Map.empty = (1, all_issues)"
proof -
  let ?i = "\<lparr> info_name = Some ''Joe's Garage'', info_type = Some ''Auto Repair'',
            info_city = Some ''Humble, TX'', info_has_website = True,
            info_website_url = ''joes.example'' \<rparr>"
  have imp: "\<And>d i s1 a s2.
         collect_data world_quiet joes_garage_confirmed = Inr d \<Longrightarrow>
         business_info joes_garage_confirmed = Inr (i, s1) \<Longrightarrow>
         info_has_website i \<Longrightarrow> \<not> fst (check_website world_quiet (Some (info_website_url i))) \<Longrightarrow>
         prompt_text (Some ''n'') s1 = Inr (Some a, s2) \<Longrightarrow> lower a = ''y''
         \<Longrightarrow> has_website d \<and> prefix all_issues (findings d)"
    using website_score_range[of Map.empty] by blast
  have h: "info_has_website ?i" "\<not> fst (check_website world_quiet (Some (info_website_url ?i)))"
    using confirmed_info(2) by simp_all
  from imp[OF confirmed_run confirmed_info(1) h confirmed_info(3) confirmed_info(4)]
    confirmed_run website_score_range[of Map.empty]
  show ?thesis by simp
qed

subsection \<open>The matcher and the meaning of patterns\<close>

lemma advance_snd: "snd (advance k p s) = drop k s"
  by (induction k p s rule: advance.induct) simp_all

lemma advance_add: "advance j (fst (advance i p s)) (drop i s) = advance (i + j) p s"
  by (induction i p s rule: advance.induct) (simp_all, (cases j; simp))

lemma advance_pair: "advance k p s = (fst (advance k p s), drop k s)"
  by (metis advance_snd prod.collapse)

lemma fst_advance_add: "fst (advance j (fst (advance i p s)) (drop i s)) = fst (advance (i + j) p s)"
  by (simp add: advance_add)

lemma take_all_iff: "k \<le> length s \<and> (\<forall>c\<in>set (take k s). P c) \<longleftrightarrow> k \<le> length (takeWhile P s)"
proof (induction s arbitrary: k)
  case Nil
  then show ?case by simp
next
  case (Cons a s)
  then show ?case by (cases k) auto
qed

lemma mem_matches_Seq:
  "(p2, s2, g) \<in> set (matches (Seq a b) p s) \<longleftrightarrow>
     (\<exists>p1 s1 g1 g2. (p1, s1, g1) \<in> set (matches a p s) \<and> (p2, s2, g2) \<in> set (matches b p1 s1)
        \<and> g = g1 @ g2)"
  by force

lemma mem_matches_Group:
  "(p', s', g) \<in> set (matches (Group a) p s) \<longleftrightarrow>
     (\<exists>g'. (p', s', g') \<in> set (matches a p s) \<and> g = take (length s - length s') s # g')"
  by force

lemma accepts_Seq:
  "accepts (Seq a b) p s k \<longleftrightarrow>
     (\<exists>j\<le>k. accepts a p s j \<and> accepts b (fst (advance j p s)) (drop j s) (k - j))"
proof -
  have "set [0..<Suc k] = {j. j \<le> k}" by auto
  then show ?thesis by (simp only: accepts.simps) blast
qed

lemma accepts_le: "accepts r p s k \<Longrightarrow> k \<le> length s"
proof (induction r arbitrary: p s k)
  case (Chr P)
  then show ?case by (cases s) auto
next
  case (Seq a b)
  from Seq.prems obtain j where j: "j \<le> k" "accepts a p s j"
    "accepts b (fst (advance j p s)) (drop j s) (k - j)" unfolding accepts_Seq by blast
  from Seq.IH(1)[OF j(2)] Seq.IH(2)[OF j(3)] j(1) show ?case by simp
qed auto

text \<open>
  Every way of matching that the backtracking matcher finds is a match in the sense of
  \<open>accepts\<close>, and every such match is found.
\<close>

lemma matches_sound:
  "(p', s', g) \<in> set (matches r p s) \<Longrightarrow>
   \<exists>k. accepts r p s k \<and> p' = fst (advance k p s) \<and> s' = drop k s"
proof (induction r arbitrary: p s p' s' g)
  case Eps
  then show ?case by (intro exI[of _ 0]) simp
next
  case (Chr P)
  then show ?case by (cases s) (auto split: if_splits intro!: exI[of _ 1])
next
  case (Many P lo hi)
  from Many obtain k where k: "lo \<le> k" "k \<le> (case hi of None \<Rightarrow> length (takeWhile P s) | Some h \<Rightarrow> min h (length (takeWhile P s)))"
    "(p', s', g) = (case advance k p s of (p', s') \<Rightarrow> (p', s', []))"
    by (auto simp: Let_def)
  from k(2) have r: "k \<le> length (takeWhile P s)" "(case hi of None \<Rightarrow> True | Some h \<Rightarrow> k \<le> h)"
    by (auto split: option.splits)
  from r(1) have "k \<le> length s \<and> (\<forall>c\<in>set (take k s). P c)" by (simp add: take_all_iff)
  moreover from k(3) have "p' = fst (advance k p s)" "s' = drop k s"
    by (subst (asm) advance_pair, simp)+
  ultimately show ?case using k(1) r(2)
    by (intro exI[of _ k]) simp
next
  case Boundary
  then show ?case by (intro exI[of _ 0]) (auto split: if_splits)
next
  case (Seq a b)
  from Seq.prems obtain p1 s1 g1 g2 where
    m: "(p1, s1, g1) \<in> set (matches a p s)" "(p', s', g2) \<in> set (matches b p1 s1)"
    unfolding mem_matches_Seq by blast
  from Seq.IH(1)[OF m(1)] obtain j where j: "accepts a p s j" "p1 = fst (advance j p s)" "s1 = drop j s"
    by blast
  from Seq.IH(2)[OF m(2)] obtain i where i: "accepts b p1 s1 i" "p' = fst (advance i p1 s1)" "s' = drop i s1"
    by blast
  have "accepts (Seq a b) p s (j + i)"
    unfolding accepts_Seq using j i by (intro exI[of _ j]) simp
  moreover have "p' = fst (advance (j + i) p s)" using i j by (simp add: advance_add)
  moreover have "s' = drop (j + i) s" using i j by (simp add: add.commute)
  ultimately show ?case by blast
next
  case (Alt a b)
  then show ?case by auto blast+
next
  case (Opt a)
  from Opt.prems have "(p', s', g) \<in> set (matches a p s) \<or> (p' = p \<and> s' = s)" by auto
  then show ?case
  proof
    assume "(p', s', g) \<in> set (matches a p s)"
    from Opt.IH[OF this] show ?thesis by auto
  next
    assume "p' = p \<and> s' = s"
    then show ?thesis by (intro exI[of _ 0]) simp
  qed
next
  case (Group a)
  from Group.prems obtain g' where "(p', s', g') \<in> set (matches a p s)"
    unfolding mem_matches_Group by blast
  from Group.IH[OF this] show ?case by auto
qed

lemma matches_complete:
  "accepts r p s k \<Longrightarrow> \<exists>g. (fst (advance k p s), drop k s, g) \<in> set (matches r p s)"
proof (induction r arbitrary: p s k)
  case Eps
  then show ?case by simp
next
  case (Chr P)
  then show ?case by (cases s) auto
next
  case (Many P lo hi)
  then have a: "lo \<le> k" "(case hi of None \<Rightarrow> True | Some h \<Rightarrow> k \<le> h)"
    "k \<le> length s \<and> (\<forall>c\<in>set (take k s). P c)" by auto
  from a(3) have "k \<le> length (takeWhile P s)" by (simp add: take_all_iff)
  with a(1,2) have "k \<in> set (rev [lo..<Suc (case hi of None \<Rightarrow> length (takeWhile P s) | Some h \<Rightarrow> min h (length (takeWhile P s)))])"
    by (auto split: option.splits)
  then have "(case advance k p s of (p', s') \<Rightarrow> (p', s', [])) \<in> set (matches (Many P lo hi) p s)"
    by (simp add: Let_def del: set_rev set_upt)
  then show ?case by (subst (asm) advance_pair) auto
next
  case Boundary
  then show ?case by simp
next
  case (Seq a b)
  from Seq.prems obtain j where j: "j \<le> k" "accepts a p s j"
    "accepts b (fst (advance j p s)) (drop j s) (k - j)" unfolding accepts_Seq by blast
  from Seq.IH(1)[OF j(2)] obtain g1 where g1: "(fst (advance j p s), drop j s, g1) \<in> set (matches a p s)"
    by blast
  from Seq.IH(2)[OF j(3)] obtain g2 where
    g2: "(fst (advance (k - j) (fst (advance j p s)) (drop j s)), drop (k - j) (drop j s), g2)
           \<in> set (matches b (fst (advance j p s)) (drop j s))"
    by blast
  from j(1) have e: "fst (advance (k - j) (fst (advance j p s)) (drop j s)) = fst (advance k p s)"
    "drop (k - j) (drop j s) = drop k s"
    by (simp_all add: advance_add)
  from g1 g2 have "(fst (advance k p s), drop k s, g1 @ g2) \<in> set (matches (Seq a b) p s)"
    unfolding e mem_matches_Seq by blast
  then show ?case by blast
next
  case (Alt a b)
  from Alt.prems have "accepts a p s k \<or> accepts b p s k" by simp
  then show ?case using Alt.IH(1)[of p s k] Alt.IH(2)[of p s k] by auto
next
  case (Opt a)
  from Opt.prems have "accepts a p s k \<or> k = 0" by simp
  then show ?case using Opt.IH[of p s k] by auto
next
  case (Group a)
  from Group.prems have "accepts a p s k" by simp
  from Group.IH[OF this] obtain g where
    "(fst (advance k p s), drop k s, g) \<in> set (matches a p s)" by blast
  then show ?case unfolding mem_matches_Group by blast
qed

lemma matches_nonempty_iff: "matches r p s \<noteq> [] \<longleftrightarrow> (\<exists>k. accepts r p s k)"
proof
  assume "matches r p s \<noteq> []"
  then obtain p' s' g where "(p', s', g) \<in> set (matches r p s)"
    by (cases "matches r p s") auto
  from matches_sound[OF this] show "\<exists>k. accepts r p s k" by blast
next
  assume "\<exists>k. accepts r p s k"
  then obtain k where "accepts r p s k" ..
  from matches_complete[OF this] show "matches r p s \<noteq> []" by auto
qed

lemma match_at_iff: "match_at r t i \<longleftrightarrow> matches r (fst (advance i None t)) (drop i t) \<noteq> []"
proof -
  have "(\<exists>k\<in>set [0..<Suc (length t - i)]. accepts r (fst (advance i None t)) (drop i t) k)
      \<longleftrightarrow> (\<exists>k. accepts r (fst (advance i None t)) (drop i t) k)"
  proof -
    have e: "set [0..<Suc (length t - i)] = {k. k \<le> length (drop i t)}" by auto
    show ?thesis unfolding e
      using accepts_le[of r "fst (advance i None t)" "drop i t"] by blast
  qed
  then show ?thesis unfolding match_at_def matches_nonempty_iff .
qed

text \<open>
  The search fails exactly when no position has a match, and otherwise stops at the
  first position that has one.
\<close>

lemma search_from_None_iff:
  "search_from r p s = None \<longleftrightarrow> (\<forall>i\<le>length s. matches r (fst (advance i p s)) (drop i s) = [])"
proof (induction s arbitrary: p)
  case Nil
  then show ?case by (auto split: list.splits)
next
  case (Cons c cs)
  have "(\<forall>i\<le>length (c # cs). matches r (fst (advance i p (c # cs))) (drop i (c # cs)) = [])
      \<longleftrightarrow> matches r p (c # cs) = [] \<and> (\<forall>i\<le>length cs. matches r (fst (advance i (Some c) cs)) (drop i cs) = [])"
    (is "?L \<longleftrightarrow> ?R")
  proof
    assume l: ?L
    from l[rule_format, of 0] have "matches r p (c # cs) = []" by simp
    moreover have "matches r (fst (advance i (Some c) cs)) (drop i cs) = []" if "i \<le> length cs" for i
      using l[rule_format, of "Suc i"] that by simp
    ultimately show ?R by blast
  next
    assume r: ?R
    show ?L
    proof (intro allI impI)
      fix i assume "i \<le> length (c # cs)"
      then show "matches r (fst (advance i p (c # cs))) (drop i (c # cs)) = []"
        using r by (cases i) auto
    qed
  qed
  then show ?case using Cons.IH[of "Some c"] by (auto split: list.splits)
qed

lemma search_from_first:
  "i \<le> length s \<Longrightarrow> \<forall>j<i. matches r (fst (advance j p s)) (drop j s) = [] \<Longrightarrow>
   matches r (fst (advance i p s)) (drop i s) = m # ms \<Longrightarrow> search_from r p s = Some (snd (snd m))"
proof (induction s arbitrary: p i)
  case Nil
  then show ?case by simp
next
  case (Cons c cs)
  show ?case
  proof (cases i)
    case 0
    with Cons.prems(3) show ?thesis by simp
  next
    case (Suc i')
    from Cons.prems(2)[rule_format, of 0] Suc have z: "matches r p (c # cs) = []" by simp
    have a: "\<forall>j<i'. matches r (fst (advance j (Some c) cs)) (drop j cs) = []"
      using Cons.prems(2)[rule_format, of "Suc j" for j] Suc by simp
    have b: "matches r (fst (advance i' (Some c) cs)) (drop i' cs) = m # ms"
      using Cons.prems(3) Suc by simp
    from Cons.prems(1) Suc have "i' \<le> length cs" by simp
    from Cons.IH[OF this a b] z show ?thesis by simp
  qed
qed

lemma search_no_match:
  "\<forall>i\<in>set [0..<Suc (length t)]. \<not> match_at r t i \<Longrightarrow> search r t = None"
proof -
  assume a: "\<forall>i\<in>set [0..<Suc (length t)]. \<not> match_at r t i"
  have "matches r (fst (advance i None t)) (drop i t) = []" if "i \<le> length t" for i
  proof -
    from that have "i \<in> set [0..<Suc (length t)]" by (simp del: upt_Suc)
    with a have "\<not> match_at r t i" by blast
    then show ?thesis unfolding match_at_iff by simp
  qed
  then have "\<forall>i\<le>length t. matches r (fst (advance i None t)) (drop i t) = []"
    by blast
  then show ?thesis unfolding search_def search_from_None_iff .
qed

lemma search_first_match:
  assumes "first_match r t i"
  obtains m ms where "matches r (fst (advance i None t)) (drop i t) = m # ms"
    "search r t = Some (snd (snd m))"
proof -
  from assms have i: "i \<le> length t" "matches r (fst (advance i None t)) (drop i t) \<noteq> []"
    and n: "\<forall>j\<in>set [0..<i]. matches r (fst (advance j None t)) (drop j t) = []"
    unfolding first_match_def match_at_iff by blast+
  have "matches r (fst (advance j None t)) (drop j t) = []" if "j < i" for j
  proof -
    from that have "j \<in> set [0..<i]" by simp
    with n show ?thesis by blast
  qed
  then have "\<forall>j<i. matches r (fst (advance j None t)) (drop j t) = []" by blast
  note i = i this
  from i(2) obtain m ms where m: "matches r (fst (advance i None t)) (drop i t) = m # ms"
    by (cases "matches r (fst (advance i None t)) (drop i t)") auto
  from search_from_first[OF i(1) i(3) m] have "search r t = Some (snd (snd m))"
    by (simp add: search_def)
  with m that show ?thesis by blast
qed

lemma no_group_nil:
  "no_group r \<Longrightarrow> (p', s', g) \<in> set (matches r p s) \<Longrightarrow> g = []"
proof (induction r arbitrary: p s p' s' g)
  case (Chr P)
  then show ?case by (cases s) (auto split: if_splits)
next
  case (Many P lo hi)
  then show ?case by (auto simp: Let_def split: prod.splits)
next
  case Boundary
  then show ?case by (auto split: if_splits)
next
  case (Seq a b)
  from Seq.prems(2) obtain p1 s1 g1 g2 where
    m: "(p1, s1, g1) \<in> set (matches a p s)" "(p', s', g2) \<in> set (matches b p1 s1)" "g = g1 @ g2"
    unfolding mem_matches_Seq by blast
  from Seq.prems(1) Seq.IH(1)[OF _ m(1)] Seq.IH(2)[OF _ m(2)] m(3) show ?case by simp
next
  case (Alt a b)
  then show ?case by auto
next
  case (Opt a)
  then show ?case by auto
qed auto

lemma no_group_iword: "no_group (iword w)"
  by (induction w rule: iword.induct) (simp_all add: ichr_def)

lemma rating_groups:
  assumes "(p', s', g) \<in> set (matches rating_re p s)"
  shows "g = [take 3 s] \<and> 3 \<le> length s"
proof -
  let ?body = "Seq (Chr (between CHR ''1'' CHR ''5''))
                     (Seq (Chr (\<lambda>c. c = CHR ''.'')) (Chr (between CHR ''0'' CHR ''9'')))"
  from assms obtain p1 s1 g1 g2 where
    b: "(p1, s1, g1) \<in> set (matches Boundary p s)"
    and r: "(p', s', g2) \<in> set (matches (Seq (Group ?body) Boundary) p1 s1)" and g: "g = g1 @ g2"
    unfolding rating_re_def mem_matches_Seq by blast
  from b have b': "p1 = p" "s1 = s" "g1 = []" by (auto split: if_splits)
  from r obtain p2 s2 g3 g4 where
    c: "(p2, s2, g3) \<in> set (matches (Group ?body) p s)"
    and d: "(p', s', g4) \<in> set (matches Boundary p2 s2)" and g': "g2 = g3 @ g4"
    unfolding b' mem_matches_Seq by blast
  from d have d': "g4 = []" by (auto split: if_splits)
  from c obtain gb where e: "(p2, s2, gb) \<in> set (matches ?body p s)"
    and g3: "g3 = take (length s - length s2) s # gb"
    unfolding mem_matches_Group by blast
  have "no_group ?body" by simp
  from no_group_nil[OF this e] have gb: "gb = []" .
  from matches_sound[OF e] obtain k where k: "accepts ?body p s k" "s2 = drop k s" by blast
  from k(1) have k3: "k = 3" unfolding accepts_Seq by auto
  from accepts_le[OF k(1)] k3 have l: "3 \<le> length s" by simp
  with k(2) k3 have "length s - length s2 = 3" by simp
  with g g' g3 gb d' b' l show ?thesis by simp
qed

lemma accepts_ichr: "accepts (ichr x) p s k \<Longrightarrow> s \<noteq> [] \<and> lower_char (hd s) = lower_char x"
  by (cases s) (auto simp: ichr_def)

lemma accepts_iword_hd:
  "accepts (iword (x # xs)) p s k \<Longrightarrow> s \<noteq> [] \<and> lower_char (hd s) = lower_char x"
proof (cases xs)
  case Nil
  assume "accepts (iword (x # xs)) p s k"
  with Nil show ?thesis using accepts_ichr by simp
next
  case (Cons y ys)
  assume "accepts (iword (x # xs)) p s k"
  with Cons obtain j where "accepts (ichr x) p s j" by (auto simp: accepts_Seq simp del: accepts.simps)
  then show ?thesis by (rule accepts_ichr)
qed

lemma not_decimal:
  "isspace c \<Longrightarrow> \<not> is_decimal c"
  "lower_char c = CHR ''g'' \<Longrightarrow> \<not> is_decimal c"
  "lower_char c = CHR ''r'' \<Longrightarrow> \<not> is_decimal c"
  by (auto simp: isspace_def is_decimal_def lower_char_def Let_def split: if_splits)

lemma lower_G: "lower_char CHR ''G'' = CHR ''g''" "lower_char CHR ''r'' = CHR ''r''"
  by code_simp+

lemma accepts_Opt: "accepts (Opt a) p s k \<longleftrightarrow> accepts a p s k \<or> k = 0"
  by simp

lemma accepts_Many_Suc:
  "accepts (Many P lo hi) p s (Suc j) \<Longrightarrow> s \<noteq> [] \<and> P (hd s)"
  by (cases s) (simp_all only: accepts.simps, auto)

text \<open>
  What follows the digits of a review count starts with whitespace, \<^verbatim>\<open>g\<close> or
  \<^verbatim>\<open>r\<close>, so the group is the whole run of digits: backtracking to a shorter run
  cannot succeed.
\<close>

lemma review_tail_first:
  assumes "accepts (Seq (Many isspace 0 None)
             (Seq (Opt (Seq (iword ''Google'') (Many isspace 1 None)))
                (Seq (iword ''review'') (Seq (Opt (ichr CHR ''s'')) Boundary)))) p s k"
  shows "s \<noteq> [] \<and> \<not> is_decimal (hd s)"
proof -
  from assms obtain j where j: "accepts (Many isspace 0 None) p s j"
    and r3: "accepts (Seq (Opt (Seq (iword ''Google'') (Many isspace 1 None)))
                (Seq (iword ''review'') (Seq (Opt (ichr CHR ''s'')) Boundary)))
              (fst (advance j p s)) (drop j s) (k - j)"
    by (subst (asm) accepts_Seq) blast
  show ?thesis
  proof (cases j)
    case 0
    from r3 have "accepts (Seq (Opt (Seq (iword ''Google'') (Many isspace 1 None)))
                (Seq (iword ''review'') (Seq (Opt (ichr CHR ''s'')) Boundary))) p s k"
      unfolding 0 by (simp only: advance.simps fst_conv drop_0 diff_zero)
    then obtain i where
      o: "accepts (Opt (Seq (iword ''Google'') (Many isspace 1 None))) p s i"
      and r4: "accepts (Seq (iword ''review'') (Seq (Opt (ichr CHR ''s'')) Boundary))
                 (fst (advance i p s)) (drop i s) (k - i)"
      by (subst (asm) accepts_Seq) blast
    from o have "accepts (Seq (iword ''Google'') (Many isspace 1 None)) p s i \<or> i = 0"
      by (simp only: accepts_Opt)
    then show ?thesis
    proof
      assume "accepts (Seq (iword ''Google'') (Many isspace 1 None)) p s i"
      then obtain n where "accepts (iword ''Google'') p s n"
        by (subst (asm) accepts_Seq) blast
      from accepts_iword_hd[OF this] have "s \<noteq> [] \<and> lower_char (hd s) = CHR ''g''"
        by (simp add: lower_G)
      then show ?thesis using not_decimal(2) by blast
    next
      assume i0: "i = 0"
      from r4 have "accepts (Seq (iword ''review'') (Seq (Opt (ichr CHR ''s'')) Boundary)) p s k"
        unfolding i0 by (simp only: advance.simps fst_conv drop_0 diff_zero)
      then obtain n where "accepts (iword ''review'') p s n"
        by (subst (asm) accepts_Seq) blast
      from accepts_iword_hd[OF this] have "s \<noteq> [] \<and> lower_char (hd s) = CHR ''r''"
        by (simp add: lower_G)
      then show ?thesis using not_decimal(3) by blast
    qed
  next
    case (Suc j')
    from j[unfolded Suc] have "s \<noteq> [] \<and> isspace (hd s)" by (rule accepts_Many_Suc)
    then show ?thesis using not_decimal(1) by blast
  qed
qed

lemma takeWhile_run:
  assumes "k \<le> length s" "\<forall>c\<in>set (take k s). P c" "drop k s \<noteq> []" "\<not> P (hd (drop k s))"
  shows "takeWhile P s = take k s"
proof -
  have "takeWhile P (take k s @ drop k s) = take k s @ takeWhile P (drop k s)"
    by (rule takeWhile_append2) (use assms(2) in blast)
  moreover have "takeWhile P (drop k s) = []" using assms(3,4) by (cases "drop k s") auto
  ultimately show ?thesis by simp
qed

lemma review_groups:
  assumes "(p', s', g) \<in> set (matches review_re p s)"
  shows "g = [takeWhile is_decimal (tl s)] \<and> takeWhile is_decimal (tl s) \<noteq> []"
proof -
  let ?tail = "Seq (Many isspace 0 None)
             (Seq (Opt (Seq (iword ''Google'') (Many isspace 1 None)))
                (Seq (iword ''review'') (Seq (Opt (ichr CHR ''s'')) Boundary)))"
  let ?first = "Chr (\<lambda>c. c = CHR ''('' \<or> isspace c)"
  let ?digits = "Many is_decimal 1 (Some 5)"
  from assms obtain p1 s1 g1 g2 where
    a: "(p1, s1, g1) \<in> set (matches ?first p s)"
    and b: "(p', s', g2) \<in> set (matches (Seq (Group ?digits) ?tail) p1 s1)" and g: "g = g1 @ g2"
    unfolding review_re_def mem_matches_Seq[of _ _ _ ?first] by blast
  from a have a': "s1 = tl s" "g1 = []" by (cases s; auto split: if_splits)+
  from b obtain p2 s2 g3 g4 where
    c: "(p2, s2, g3) \<in> set (matches (Group ?digits) p1 s1)"
    and d: "(p', s', g4) \<in> set (matches ?tail p2 s2)" and g': "g2 = g3 @ g4"
    unfolding mem_matches_Seq[of _ _ _ "Group ?digits"] by blast
  have "no_group ?tail" by (simp add: no_group_iword ichr_def del: iword.simps)
  from no_group_nil[OF this d] have g4: "g4 = []" .
  from c obtain gd where e: "(p2, s2, gd) \<in> set (matches ?digits p1 s1)"
    and g3: "g3 = take (length s1 - length s2) s1 # gd"
    unfolding mem_matches_Group by blast
  have "no_group ?digits" by simp
  from no_group_nil[OF this e] have gd: "gd = []" .
  from matches_sound[OF e] obtain k where
    k: "accepts ?digits p1 s1 k" "s2 = drop k s1" by blast
  from k(1) have k': "1 \<le> k" "k \<le> length s1" "\<forall>c\<in>set (take k s1). is_decimal c" by simp_all
  from matches_sound[OF d] obtain n where "accepts ?tail p2 s2 n" by blast
  from review_tail_first[OF this] have t: "drop k s1 \<noteq> []" "\<not> is_decimal (hd (drop k s1))"
    unfolding k(2) by simp_all
  from takeWhile_run[OF k'(2) k'(3) t] have r: "takeWhile is_decimal s1 = take k s1" .
  from k'(2) k(2) have "length s1 - length s2 = k" by simp
  with g g' g3 g4 gd a'(2) have "g = [take k s1]" by simp
  moreover from k'(1,2) have "take k s1 \<noteq> []" by (cases s1) auto
  ultimately show ?thesis unfolding a'(1)[symmetric] r by simp
qed

end
